theory Spec2Isabelle
  imports Main "HOL-Library.Sublist"
begin

section \<open>Strings and paths of the Go standard library\<close>

text \<open>
  The directory code of \<^verbatim>\<open>vfs/directory.go\<close> computes with \<^verbatim>\<open>strings.HasPrefix\<close>,
  \<^verbatim>\<open>path.IsAbs\<close>, \<^verbatim>\<open>path.Clean\<close>, \<^verbatim>\<open>path.Join\<close> and \<^verbatim>\<open>path.Dir\<close>. A Go string is a
  byte sequence, here a \<open>string\<close> (a list of characters).
\<close>

definition HasPrefix :: "string \<Rightarrow> string \<Rightarrow> bool" where
  "HasPrefix s pre = prefix pre s"

definition IsAbs :: "string \<Rightarrow> bool" where
  "IsAbs p = (case p of [] \<Rightarrow> False | c # _ \<Rightarrow> c = CHR ''/'')"

text \<open>The elements of a path: the pieces between its slashes (\<^verbatim>\<open>strings.Split(p, "/")\<close>).\<close>

fun elems :: "string \<Rightarrow> string list" where
  "elems [] = [[]]"
| "elems (c # cs) =
     (if c = CHR ''/'' then [] # elems cs
      else (case elems cs of [] \<Rightarrow> [[c]] | e # es \<Rightarrow> (c # e) # es))"

fun joinSlash :: "string list \<Rightarrow> string" where
  "joinSlash [] = []"
| "joinSlash [e] = e"
| "joinSlash (e # es) = e @ ''/'' @ joinSlash es"

text \<open>
  The loop of \<^verbatim>\<open>path.Clean\<close>, element by element. \<open>out\<close> is the output built so far, last
  element first. An empty element and a \<^verbatim>\<open>.\<close> element are skipped; a \<^verbatim>\<open>..\<close> element removes
  the last element of the output when that is a real element (Go: \<^verbatim>\<open>out.w > dotdot\<close>), is
  appended when the path is not rooted, and is dropped at the start of a rooted path; every
  other element is appended.
\<close>

fun cleanElems :: "bool \<Rightarrow> string list \<Rightarrow> string list \<Rightarrow> string list" where
  "cleanElems rooted out [] = rev out"
| "cleanElems rooted out (e # es) =
     (if e = [] \<or> e = ''.'' then cleanElems rooted out es
      else if e = ''..'' then
        (if out \<noteq> [] \<and> hd out \<noteq> ''..'' then cleanElems rooted (tl out) es
         else if \<not> rooted then cleanElems rooted (''..'' # out) es
         else cleanElems rooted out es)
      else cleanElems rooted (e # out) es)"

definition Clean :: "string \<Rightarrow> string" where
  "Clean p =
     (if p = [] then ''.''
      else
        let rooted = IsAbs p;
            out = (if rooted then ''/'' else []) @ joinSlash (cleanElems rooted [] (elems p))
        in if out = [] then ''.'' else out)"

text \<open>\<^verbatim>\<open>path.Join\<close> of two elements: empty leading elements are ignored, the rest is joined
  with slashes and cleaned; the join of empty strings is the empty string.\<close>

definition Join :: "string \<Rightarrow> string \<Rightarrow> string" where
  "Join a b =
     (if a \<noteq> [] then Clean (a @ ''/'' @ b)
      else if b \<noteq> [] then Clean b
      else [])"

text \<open>\<^verbatim>\<open>path.Dir\<close>: everything up to and including the final slash, cleaned.\<close>

definition Dir :: "string \<Rightarrow> string" where
  "Dir p = Clean (rev (dropWhile (\<lambda>c. c \<noteq> CHR ''/'') (rev p)))"

section \<open>Documents and errors\<close>

text \<open>
  The fields of \<^verbatim>\<open>DirDoc\<close> that are serialised (the JSON document of the store). Instants of
  \<^verbatim>\<open>time.Time\<close> are integers.
\<close>

record Document =
  Type :: string
  ObjID :: string
  ObjRev :: string
  Name :: string
  FolderID :: string
  CreatedAt :: int
  UpdatedAt :: int
  Path :: string
  Tags :: "string list"

text \<open>
  \<^verbatim>\<open>DirDoc\<close> in memory: the document and the unexported fields \<^verbatim>\<open>parent\<close>, \<^verbatim>\<open>files\<close> and
  \<^verbatim>\<open>dirs\<close>. The nodes these point to are represented by their documents.
\<close>

record DirDoc = Document +
  parent :: "Document option"
  files :: "Document list"
  dirs :: "Document list"

text \<open>
  Modelled from the spec: \<^verbatim>\<open>DocMetaAttributes\<close>, the sparse update descriptor of
  ModifyDirectoryMetadata (its declaration is not in \<^verbatim>\<open>directory.go\<close>). The code reads four
  fields: \<^verbatim>\<open>Name\<close> (a string), \<^verbatim>\<open>FolderID\<close> and \<^verbatim>\<open>UpdatedAt\<close> (pointers, nil when absent)
  and \<^verbatim>\<open>Tags\<close> (a slice, nil when absent).
\<close>

record DocMetaAttributes =
  attrName :: string
  attrFolderID :: "string option"
  attrTags :: "string list option"
  attrUpdatedAt :: "int option"

datatype error =
    ErrParentDoesNotExist
  | ErrIllegalTime
  | ErrForbiddenDocMove
  | ErrIllegalFilename
  | ErrNotExist
  | ErrExist
  | Errorf string
  | CouchNotFound
  | CouchConflict
  | CouchUnavailable
  | IOError

text \<open>
  Modelled from the spec: the constants \<^verbatim>\<open>RootFolderID\<close>, \<^verbatim>\<open>DirType\<close> and \<^verbatim>\<open>FileType\<close>
  (declared outside \<^verbatim>\<open>directory.go\<close>): the fixed well-known identifier of the root and the
  two values of the type discriminator.
\<close>

definition RootFolderID :: string where
  "RootFolderID = ''io.cozy.folders-root''"

definition DirType :: string where
  "DirType = ''directory''"

definition FileType :: string where
  "FileType = ''file''"

section \<open>The document store and the physical store\<close>

text \<open>
  Modelled from the spec: the DocumentStore contract (package \<^verbatim>\<open>couchdb\<close> is not among the
  sources). The store holds the documents of the one doctype \<^verbatim>\<open>FsDocType\<close>, keyed by
  identifier, in order of arrival. \<open>online\<close> is false while the store cannot be reached:
  every call then fails and changes nothing.
\<close>

record Database =
  docs :: "(string \<times> Document) list"
  online :: bool

text \<open>
  Modelled from the spec: the PhysicalStore contract (an \<^verbatim>\<open>afero.Fs\<close>): the paths that exist.
  \<open>broken\<close> is the backend that answers every call with an I/O error.
\<close>

record Fs =
  entries :: "string list"
  broken :: bool

record Context =
  db :: Database
  fs :: Fs

text \<open>A revision is an opaque token that changes on every successful write.\<close>

definition nextRev :: "string \<Rightarrow> string" where
  "nextRev r = CHR ''+'' # r"

text \<open>An identifier the store has not assigned yet: it is longer than every identifier in
  use and than the root's.\<close>

definition newID :: "Database \<Rightarrow> string" where
  "newID d =
     replicate (Suc (foldr max (map (length \<circ> fst) (docs d)) (length RootFolderID))) CHR ''x''"

definition stored :: "'a Document_scheme \<Rightarrow> Document" where
  "stored doc =
     \<lparr>Type = Type doc, ObjID = ObjID doc, ObjRev = ObjRev doc, Name = Name doc,
      FolderID = FolderID doc, CreatedAt = CreatedAt doc, UpdatedAt = UpdatedAt doc,
      Path = Path doc, Tags = Tags doc\<rparr>"

definition GetDoc :: "Database \<Rightarrow> string \<Rightarrow> error + Document" where
  "GetDoc d i =
     (if \<not> online d then Inl CouchUnavailable
      else case map_of (docs d) i of None \<Rightarrow> Inl CouchNotFound | Some doc \<Rightarrow> Inr doc)"

definition CreateDoc :: "Database \<Rightarrow> 'a Document_scheme \<Rightarrow> error + (Database \<times> 'a Document_scheme)" where
  "CreateDoc d doc =
     (if \<not> online d then Inl CouchUnavailable
      else
        let doc' = doc\<lparr>ObjID := newID d, ObjRev := nextRev []\<rparr>
        in Inr (d\<lparr>docs := docs d @ [(ObjID doc', stored doc')]\<rparr>, doc'))"

definition UpdateDoc :: "Database \<Rightarrow> 'a Document_scheme \<Rightarrow> error + (Database \<times> 'a Document_scheme)" where
  "UpdateDoc d doc =
     (if \<not> online d then Inl CouchUnavailable
      else case map_of (docs d) (ObjID doc) of
        None \<Rightarrow> Inl CouchNotFound
      | Some cur \<Rightarrow>
          if ObjRev cur \<noteq> ObjRev doc then Inl CouchConflict
          else
            let doc' = doc\<lparr>ObjRev := nextRev (ObjRev doc)\<rparr>
            in Inr (d\<lparr>docs := map (\<lambda>(i, x). if i = ObjID doc then (i, stored doc') else (i, x)) (docs d)\<rparr>,
                    doc'))"

text \<open>The selectors of package \<^verbatim>\<open>mango\<close> that the directory code builds.\<close>

datatype selector =
    EqualPath string
  | EqualFolderID string
  | StartWithPath string

fun matches :: "selector \<Rightarrow> Document \<Rightarrow> bool" where
  "matches (EqualPath v) doc = (Path doc = v)"
| "matches (EqualFolderID v) doc = (FolderID doc = v)"
| "matches (StartWithPath v) doc = HasPrefix (Path doc) v"

definition FindDocs :: "Database \<Rightarrow> selector \<Rightarrow> nat option \<Rightarrow> error + Document list" where
  "FindDocs d sel limit =
     (if \<not> online d then Inl CouchUnavailable
      else
        let found = filter (matches sel) (map snd (docs d))
        in Inr (case limit of None \<Rightarrow> found | Some n \<Rightarrow> take n found))"

definition Mkdir :: "Fs \<Rightarrow> string \<Rightarrow> error + Fs" where
  "Mkdir f p =
     (if broken f then Inl IOError
      else if p \<in> set (entries f) then Inl ErrExist
      else Inr (f\<lparr>entries := entries f @ [p]\<rparr>))"

definition Stat :: "Fs \<Rightarrow> string \<Rightarrow> error option" where
  "Stat f p =
     (if broken f then Some IOError
      else if p \<in> set (entries f) then None
      else Some ErrNotExist)"

definition Remove :: "Fs \<Rightarrow> string \<Rightarrow> error + Fs" where
  "Remove f p =
     (if broken f then Inl IOError
      else if p \<notin> set (entries f) then Inl ErrNotExist
      else Inr (f\<lparr>entries := removeAll p (entries f)\<rparr>))"

text \<open>A rename moves the entry and everything below it.\<close>

definition moved :: "string \<Rightarrow> string \<Rightarrow> string \<Rightarrow> string" where
  "moved old new p =
     (if p = old \<or> HasPrefix p (old @ ''/'') then new @ drop (length old) p else p)"

definition Rename :: "Fs \<Rightarrow> string \<Rightarrow> string \<Rightarrow> error + Fs" where
  "Rename f old new =
     (if broken f then Inl IOError
      else if old \<notin> set (entries f) then Inl ErrNotExist
      else if new \<in> set (entries f) then Inl ErrExist
      else Inr (f\<lparr>entries := map (moved old new) (entries f)\<rparr>))"

section \<open>The directory operations of \<^verbatim>\<open>vfs/directory.go\<close>\<close>

text \<open>
  Modelled from the spec: \<^verbatim>\<open>getRootDirDoc\<close> (defined outside \<^verbatim>\<open>directory.go\<close>), the
  synthetic root: it carries the root identifier and the path \<^verbatim>\<open>/\<close>, and is never stored.
\<close>

definition getRootDirDoc :: DirDoc where
  "getRootDirDoc =
     \<lparr>Type = DirType, ObjID = RootFolderID, ObjRev = [], Name = [], FolderID = [],
      CreatedAt = 0, UpdatedAt = 0, Path = ''/'', Tags = [],
      parent = None, files = [], dirs = []\<rparr>"

text \<open>
  Modelled from the spec: \<^verbatim>\<open>checkFileName\<close> (defined outside \<^verbatim>\<open>directory.go\<close>). A name is
  refused when it is empty or contains the path separator. The spec names further "length
  and character constraints" without stating them; none is modelled.
\<close>

definition checkFileName :: "string \<Rightarrow> error option" where
  "checkFileName str =
     (if str = [] \<or> CHR ''/'' \<in> set str then Some ErrIllegalFilename else None)"

text \<open>
  Modelled from the spec: \<^verbatim>\<open>appendTags\<close> (defined outside \<^verbatim>\<open>directory.go\<close>): the union of
  the current and the new tags, duplicates removed.
\<close>

definition appendTags :: "string list \<Rightarrow> string list \<Rightarrow> string list" where
  "appendTags oldtags newtags = remdups (oldtags @ newtags)"

text \<open>Decoding a stored document into a fresh \<^verbatim>\<open>&DirDoc{}\<close>: the unexported fields are nil.\<close>

definition decode :: "Document \<Rightarrow> DirDoc" where
  "decode doc =
     \<lparr>Type = Type doc, ObjID = ObjID doc, ObjRev = ObjRev doc, Name = Name doc,
      FolderID = FolderID doc, CreatedAt = CreatedAt doc, UpdatedAt = UpdatedAt doc,
      Path = Path doc, Tags = Tags doc, parent = None, files = [], dirs = []\<rparr>"

text \<open>\<^verbatim>\<open>NewDirDoc\<close>; \<open>now\<close> is the value of \<^verbatim>\<open>time.Now()\<close>.\<close>

definition NewDirDoc :: "int \<Rightarrow> string \<Rightarrow> string \<Rightarrow> string list \<Rightarrow> Document option \<Rightarrow> error + DirDoc" where
  "NewDirDoc now name folderID tags par =
     (case checkFileName name of
        Some err \<Rightarrow> Inl err
      | None \<Rightarrow>
          let folderID = (if folderID = [] then RootFolderID else folderID);
              par = (if folderID = RootFolderID \<and> par = None then Some (stored getRootDirDoc) else par)
          in Inr \<lparr>Type = DirType, ObjID = [], ObjRev = [], Name = name, FolderID = folderID,
                  CreatedAt = now, UpdatedAt = now, Path = [], Tags = tags,
                  parent = par, files = [], dirs = []\<rparr>)"

text \<open>
  \<^verbatim>\<open>fetchChildren\<close>: the documents whose \<^verbatim>\<open>folder_id\<close> is the parent's identifier, at most
  ten, split by their type into files and directories (\<^verbatim>\<open>refine\<close>); a document of another
  type is dropped.
\<close>

definition fetchChildren :: "Context \<Rightarrow> 'a Document_scheme \<Rightarrow> error + (Document list \<times> Document list)" where
  "fetchChildren c par =
     (case FindDocs (db c) (EqualFolderID (ObjID par)) (Some 10) of
        Inl err \<Rightarrow> Inl err
      | Inr found \<Rightarrow>
          Inr (filter (\<lambda>doc. Type doc = FileType) found, filter (\<lambda>doc. Type doc = DirType) found))"

definition FetchFiles :: "Context \<Rightarrow> DirDoc \<Rightarrow> DirDoc \<times> error option" where
  "FetchFiles c d =
     (case fetchChildren c d of
        Inl err \<Rightarrow> (d\<lparr>files := [], dirs := []\<rparr>, Some err)
      | Inr (fls, drs) \<Rightarrow> (d\<lparr>files := fls, dirs := drs\<rparr>, None))"

text \<open>
  \<^verbatim>\<open>GetDirDoc\<close>. Go returns the pair of the document and the error; here the result is the
  error when there is one.
\<close>

definition GetDirDoc :: "Context \<Rightarrow> string \<Rightarrow> bool \<Rightarrow> error + DirDoc" where
  "GetDirDoc c fileID withChildren =
     (if fileID = RootFolderID then Inr getRootDirDoc
      else
        case GetDoc (db c) fileID of
          Inl err \<Rightarrow> Inl (if err = CouchNotFound then ErrParentDoesNotExist else err)
        | Inr found \<Rightarrow>
            let doc = decode found in
            if Type doc \<noteq> DirType then Inl ErrNotExist
            else if withChildren then
              (case FetchFiles c doc of (doc', Some err) \<Rightarrow> Inl err | (doc', None) \<Rightarrow> Inr doc')
            else Inr doc)"

definition GetDirDocFromPath :: "Context \<Rightarrow> string \<Rightarrow> bool \<Rightarrow> error + DirDoc" where
  "GetDirDocFromPath c pth withChildren =
     (case (if pth = ''/'' then Inr getRootDirDoc
            else
              case FindDocs (db c) (EqualPath (Clean pth)) (Some 1) of
                Inl err \<Rightarrow> Inl err
              | Inr [] \<Rightarrow> Inl ErrNotExist
              | Inr (found # _) \<Rightarrow> Inr (decode found)) of
        Inl err \<Rightarrow> Inl err
      | Inr doc \<Rightarrow>
          if withChildren then
            (case FetchFiles c doc of (doc', Some err) \<Rightarrow> Inl err | (doc', None) \<Rightarrow> Inr doc')
          else Inr doc)"

text \<open>
  Modelled from the spec: \<^verbatim>\<open>getFilePath\<close> (defined outside \<^verbatim>\<open>directory.go\<close>), the spec's
  \<^verbatim>\<open>computeChildPath\<close>: it resolves the parent (the root sentinel gives the synthetic root),
  fails with \<^verbatim>\<open>ParentMissing\<close> when the identifier does not resolve to a directory document,
  validates the name, and returns the cleaned concatenation of the parent's path, a slash
  and the name, with the parent.
\<close>

definition getFilePath :: "Context \<Rightarrow> string \<Rightarrow> string \<Rightarrow> error + (string \<times> DirDoc)" where
  "getFilePath c name folderID =
     (case GetDirDoc c folderID False of
        Inl err \<Rightarrow> Inl (if err = ErrNotExist then ErrParentDoesNotExist else err)
      | Inr parentDoc \<Rightarrow>
          (case checkFileName name of
             Some err \<Rightarrow> Inl err
           | None \<Rightarrow> Inr (Clean (Path parentDoc @ ''/'' @ name), parentDoc)))"

text \<open>
  \<^verbatim>\<open>CreateDirectory\<close>. The result is the context after the call and the error or the
  document as the call leaves it (its path, identifier and revision set). The deferred
  function removes the directory when the document could not be created; what
  \<^verbatim>\<open>Remove\<close> returns is ignored.
\<close>

definition CreateDirectory :: "Context \<Rightarrow> DirDoc \<Rightarrow> Context \<times> (error + DirDoc)" where
  "CreateDirectory c doc =
     (case getFilePath c (Name doc) (FolderID doc) of
        Inl err \<Rightarrow> (c, Inl err)
      | Inr (pth, _) \<Rightarrow>
          (case Mkdir (fs c) pth of
             Inl err \<Rightarrow> (c, Inl err)
           | Inr fs1 \<Rightarrow>
               (case CreateDoc (db c) (doc\<lparr>Path := pth\<rparr>) of
                  Inl err \<Rightarrow>
                    (c\<lparr>fs := (case Remove fs1 pth of Inl _ \<Rightarrow> fs1 | Inr fs2 \<Rightarrow> fs2)\<rparr>, Inl err)
                | Inr (db1, doc1) \<Rightarrow> (c\<lparr>fs := fs1, db := db1\<rparr>, Inr doc1))))"

definition safeRenameDirectory :: "string \<Rightarrow> string \<Rightarrow> Fs \<Rightarrow> error + Fs" where
  "safeRenameDirectory oldpath newpath f =
     (let newpath = Clean newpath;
          oldpath = Clean oldpath
      in
        if \<not> IsAbs newpath \<or> \<not> IsAbs oldpath then Inl (Errorf ''paths should be absolute'')
        else if HasPrefix newpath (oldpath @ ''/'') then Inl ErrForbiddenDocMove
        else
          case Stat f newpath of
            None \<Rightarrow> Inl ErrExist
          | Some err \<Rightarrow> if err \<noteq> ErrNotExist then Inl err else Rename f oldpath newpath)"

text \<open>
  The unit of work that \<^verbatim>\<open>bulkUpdateDocsPath\<close> starts for one queried document (the body of
  its goroutine): the store after it and the value it sends on the channel.
\<close>

definition fixChild :: "Database \<Rightarrow> string \<Rightarrow> string \<Rightarrow> Document \<Rightarrow> Database \<times> error option" where
  "fixChild d oldpath newpath child =
     (if \<not> HasPrefix (Path child) (oldpath @ ''/'') then
        (d, Some (Errorf ''Child has wrong base directory''))
      else
        case UpdateDoc d (child\<lparr>Path := Join newpath (drop (length oldpath + 1) (Path child))\<rparr>) of
          Inl err \<Rightarrow> (d, Some err)
        | Inr (d', _) \<Rightarrow> (d', None))"

text \<open>
  The scheduler. \<^verbatim>\<open>bulkUpdateDocsPath\<close> starts one goroutine per queried document and then
  receives one value per goroutine from an unbuffered channel. The program fixes neither the
  order in which the goroutines write to the store nor the order in which their values are
  received. A schedule gives each unit, numbered by its position in the query result, the
  moment its write reaches the store and the moment its value is received; units are taken
  in ascending order of these moments. Every pair of functions is a schedule, and every
  order of the units is the order of some schedule.
\<close>

record Schedule =
  writesAt :: "nat \<Rightarrow> nat"
  arrivesAt :: "nat \<Rightarrow> nat"

definition inOrder :: "(nat \<Rightarrow> nat) \<Rightarrow> (nat \<times> 'a) list \<Rightarrow> (nat \<times> 'a) list" where
  "inOrder moment units = sort_key (moment \<circ> fst) units"

text \<open>The numbered units run one after the other in the given order: the store after them
  and, for each unit, the value it sends.\<close>

fun runUnits :: "Database \<Rightarrow> string \<Rightarrow> string \<Rightarrow> (nat \<times> Document) list \<Rightarrow> Database \<times> (nat \<times> error option) list" where
  "runUnits d oldpath newpath [] = (d, [])"
| "runUnits d oldpath newpath ((n, child) # units) =
     (case fixChild d oldpath newpath child of
        (d1, e) \<Rightarrow>
          (case runUnits d1 oldpath newpath units of
             (d2, sent) \<Rightarrow> (d2, (n, e) # sent)))"

text \<open>The receiving loop \<^verbatim>\<open>for range children { if e := <-errc; e != nil { err = e } }\<close> on
  the values in the order of their arrival.\<close>

fun receive :: "error option list \<Rightarrow> error option \<Rightarrow> error option" where
  "receive [] err = err"
| "receive (None # arrived) err = receive arrived err"
| "receive (Some e # arrived) err = receive arrived (Some e)"

text \<open>
  The fan-out of \<^verbatim>\<open>bulkUpdateDocsPath\<close> under a schedule: every unit runs once, in the order
  of the writes; one value per unit is received, in the order of the arrivals, and the last
  error received is kept.
\<close>

definition fanout :: "Database \<Rightarrow> string \<Rightarrow> string \<Rightarrow> Document list \<Rightarrow> Schedule \<Rightarrow> Database \<times> error option" where
  "fanout d oldpath newpath children sched =
     (case runUnits d oldpath newpath (inOrder (writesAt sched) (enumerate 0 children)) of
        (d', sent) \<Rightarrow> (d', receive (map snd (inOrder (arrivesAt sched) sent)) None))"

definition bulkUpdateDocsPath ::
  "Context \<Rightarrow> 'a Document_scheme \<Rightarrow> string \<Rightarrow> Schedule \<Rightarrow> Context \<times> error option" where
  "bulkUpdateDocsPath c olddoc newpath sched =
     (let oldpath = Clean (Path olddoc) in
      case FindDocs (db c) (StartWithPath (oldpath @ ''/'')) None of
        Inl err \<Rightarrow> (c, Some err)
      | Inr children \<Rightarrow>
          if children = [] then (c, None)
          else
            case fanout (db c) oldpath newpath children sched of
              (d', err) \<Rightarrow> (c\<lparr>db := d'\<rparr>, err))"

text \<open>
  \<^verbatim>\<open>ModifyDirectoryMetadata\<close>: the context after the call, and the error or the new
  document. \<open>now\<close> is the value of \<^verbatim>\<open>time.Now()\<close> that \<^verbatim>\<open>NewDirDoc\<close> reads, \<open>sched\<close> the
  schedule of the goroutines that \<^verbatim>\<open>bulkUpdateDocsPath\<close> starts.
\<close>

definition ModifyDirectoryMetadata ::
  "Context \<Rightarrow> int \<Rightarrow> DirDoc \<Rightarrow> DocMetaAttributes \<Rightarrow> Schedule \<Rightarrow> Context \<times> (error + DirDoc)" where
  "ModifyDirectoryMetadata c now olddoc data sched =
     (case (case attrFolderID data of
              None \<Rightarrow> Inr (FolderID olddoc, Path olddoc, parent olddoc)
            | Some newFolder \<Rightarrow>
                if newFolder \<noteq> FolderID olddoc then
                  (case getFilePath c (Name olddoc) newFolder of
                     Inl err \<Rightarrow> Inl err
                   | Inr (p, par) \<Rightarrow> Inr (newFolder, p, Some (stored par)))
                else Inr (FolderID olddoc, Path olddoc, parent olddoc)) of
        Inl err \<Rightarrow> (c, Inl err)
      | Inr (folderID, pth0, par) \<Rightarrow>
          let name = (if attrName data \<noteq> [] then attrName data else Name olddoc);
              pth = (if attrName data \<noteq> [] then Join (Dir pth0) name else pth0);
              tags = (case attrTags data of None \<Rightarrow> Tags olddoc | Some ts \<Rightarrow> appendTags (Tags olddoc) ts);
              mdate = (case attrUpdatedAt data of None \<Rightarrow> UpdatedAt olddoc | Some t \<Rightarrow> t)
          in
            if mdate < CreatedAt olddoc then (c, Inl ErrIllegalTime)
            else
              case NewDirDoc now name folderID tags par of
                Inl err \<Rightarrow> (c, Inl err)
              | Inr fresh \<Rightarrow>
                  let newdoc = fresh\<lparr>ObjID := ObjID olddoc, ObjRev := ObjRev olddoc,
                                     CreatedAt := CreatedAt olddoc, UpdatedAt := mdate, Path := pth,
                                     files := files olddoc, dirs := dirs olddoc\<rparr>
                  in
                    case (if pth \<noteq> Path olddoc then safeRenameDirectory (Path olddoc) pth (fs c)
                          else Inr (fs c)) of
                      Inl err \<Rightarrow> (c, Inl err)
                    | Inr fs1 \<Rightarrow>
                        (case bulkUpdateDocsPath (c\<lparr>fs := fs1\<rparr>) olddoc pth sched of
                           (c1, Some err) \<Rightarrow> (c1, Inl err)
                         | (c1, None) \<Rightarrow>
                             (case UpdateDoc (db c1) newdoc of
                                Inl err \<Rightarrow> (c1, Inl err)
                              | Inr (db2, newdoc') \<Rightarrow> (c1\<lparr>db := db2\<rparr>, Inr newdoc'))))"

section \<open>Auxiliary definitions for the statements\<close>

text \<open>
  The first step of \<^verbatim>\<open>ModifyDirectoryMetadata\<close> on its own: the folder, the path and the
  parent after the new folder identifier, if any, has been resolved.
\<close>

definition resolved :: "Context \<Rightarrow> DirDoc \<Rightarrow> DocMetaAttributes \<Rightarrow> error + (string \<times> string \<times> Document option)" where
  "resolved c olddoc data =
     (case attrFolderID data of
        None \<Rightarrow> Inr (FolderID olddoc, Path olddoc, parent olddoc)
      | Some newFolder \<Rightarrow>
          if newFolder \<noteq> FolderID olddoc then
            (case getFilePath c (Name olddoc) newFolder of
               Inl err \<Rightarrow> Inl err
             | Inr (p, par) \<Rightarrow> Inr (newFolder, p, Some (stored par)))
          else Inr (FolderID olddoc, Path olddoc, parent olddoc))"

text \<open>
  A small store for the examples: the directory \<^verbatim>\<open>/docs\<close> under the root, the directories
  \<^verbatim>\<open>/docs/photos\<close> and \<^verbatim>\<open>/docs/music\<close> in it, and a file under the root.
\<close>

definition exDocs :: "(string \<times> Document) list" where
  "exDocs =
     [(''d1'', \<lparr>Type = DirType, ObjID = ''d1'', ObjRev = ''+'', Name = ''docs'',
               FolderID = RootFolderID, CreatedAt = 5, UpdatedAt = 5, Path = ''/docs'', Tags = []\<rparr>),
      (''d2'', \<lparr>Type = DirType, ObjID = ''d2'', ObjRev = ''+'', Name = ''photos'',
               FolderID = ''d1'', CreatedAt = 6, UpdatedAt = 6, Path = ''/docs/photos'', Tags = []\<rparr>),
      (''f1'', \<lparr>Type = FileType, ObjID = ''f1'', ObjRev = ''+'', Name = ''todo.txt'',
               FolderID = RootFolderID, CreatedAt = 7, UpdatedAt = 7, Path = [], Tags = []\<rparr>),
      (''d3'', \<lparr>Type = DirType, ObjID = ''d3'', ObjRev = ''+'', Name = ''music'',
               FolderID = ''d1'', CreatedAt = 8, UpdatedAt = 8, Path = ''/docs/music'', Tags = []\<rparr>)]"

definition exCtx :: Context where
  "exCtx = \<lparr>db = \<lparr>docs = exDocs, online = True\<rparr>,
            fs = \<lparr>entries = [''/'', ''/docs'', ''/docs/photos'', ''/docs/music''], broken = False\<rparr>\<rparr>"

text \<open>The same store while the document store cannot be reached.\<close>

definition exOffline :: Context where
  "exOffline = exCtx\<lparr>db := (db exCtx)\<lparr>online := False\<rparr>\<rparr>"

text \<open>The directory \<^verbatim>\<open>/docs\<close> as \<^verbatim>\<open>GetDirDoc\<close> loads it, and an update that changes nothing.\<close>

definition exDocsDir :: DirDoc where
  "exDocsDir = decode (snd (exDocs ! 0))"

definition noChange :: DocMetaAttributes where
  "noChange = \<lparr>attrName = [], attrFolderID = None, attrTags = None, attrUpdatedAt = None\<rparr>"

text \<open>
  A real path element (neither empty nor a dot element, and without a slash), and the
  absolute path with given elements.
\<close>

definition normalElem :: "string \<Rightarrow> bool" where
  "normalElem e = (e \<noteq> [] \<and> e \<noteq> ''.'' \<and> e \<noteq> ''..'' \<and> CHR ''/'' \<notin> set e)"

definition absPath :: "string list \<Rightarrow> string" where
  "absPath cs = ''/'' @ joinSlash cs"

text \<open>A store whose keys are distinct and are the identifiers of its documents.\<close>

definition keyed :: "Database \<Rightarrow> bool" where
  "keyed d = (distinct (map fst (docs d)) \<and> (\<forall>(i, x)\<in>set (docs d). ObjID x = i))"

text \<open>The document that a unit of the fan-out writes for a queried document.\<close>

definition relocated :: "string \<Rightarrow> string \<Rightarrow> Document \<Rightarrow> Document" where
  "relocated oldpath newpath child =
     child\<lparr>Path := Join newpath (drop (length oldpath + 1) (Path child)),
            ObjRev := nextRev (ObjRev child)\<rparr>"

text \<open>A unit of the fan-out succeeds when the queried document has the prefix and the store,
  which can be reached, holds a document with its identifier and its revision.\<close>

definition unitOK :: "Database \<Rightarrow> string \<Rightarrow> Document \<Rightarrow> bool" where
  "unitOK d oldpath child =
     (HasPrefix (Path child) (oldpath @ ''/'') \<and> online d \<and>
      (case map_of (docs d) (ObjID child) of None \<Rightarrow> False | Some cur \<Rightarrow> ObjRev cur = ObjRev child))"

text \<open>Two schedules: the units write and their values arrive in the order of the query result;
  and the units write in that order and their values arrive in the opposite order.\<close>

definition exListOrder :: Schedule where
  "exListOrder = \<lparr>writesAt = (\<lambda>n. n), arrivesAt = (\<lambda>n. n)\<rparr>"

definition exLastFirst :: Schedule where
  "exLastFirst = \<lparr>writesAt = (\<lambda>n. n), arrivesAt = (\<lambda>n. 9 - n)\<rparr>"

text \<open>
  A query result that is out of date when the units run: \<^verbatim>\<open>/docs/photos\<close> with a revision
  that another writer has replaced since, a directory \<^verbatim>\<open>/docs/videos\<close> that has been deleted
  since, and \<^verbatim>\<open>/docs/music\<close> as the store holds it.
\<close>

definition exSnapshot :: "Document list" where
  "exSnapshot =
     [(snd (exDocs ! 1))\<lparr>ObjRev := []\<rparr>,
      \<lparr>Type = DirType, ObjID = ''d4'', ObjRev = ''+'', Name = ''videos'',
       FolderID = ''d1'', CreatedAt = 8, UpdatedAt = 8, Path = ''/docs/videos'', Tags = []\<rparr>,
      snd (exDocs ! 3)]"

text \<open>A call that adds a tag to \<^verbatim>\<open>/docs\<close> and changes nothing else.\<close>

definition exTagged :: "Context \<times> (error + DirDoc)" where
  "exTagged =
     ModifyDirectoryMetadata exCtx 9 exDocsDir (noChange\<lparr>attrTags := Some [''work'']\<rparr>) exListOrder"

section \<open>The path invariant\<close>

text \<open>The path of the directory that a folder identifier names: \<^verbatim>\<open>/\<close> for the root
  identifier, otherwise the path of the stored directory document with that identifier.\<close>

definition folderPath :: "Database \<Rightarrow> string \<Rightarrow> string option" where
  "folderPath d folderID =
     (if folderID = RootFolderID then Some ''/''
      else
        case map_of (docs d) folderID of
          None \<Rightarrow> None
        | Some p \<Rightarrow> if Type p = DirType then Some (Path p) else None)"






section \<open>Facts about paths\<close>

lemma elems_not_Nil [simp]: "elems p \<noteq> []"
  by (induction p) (auto split: list.splits)

lemma elems_append_slash: "elems (a @ CHR ''/'' # b) = elems a @ elems b"
  by (induction a) (auto split: list.splits)

lemma elems_noslash_one: "CHR ''/'' \<notin> set e \<Longrightarrow> elems e = [e]"
  by (induction e) (auto split: list.splits)

lemma joinSlash_Cons: "es \<noteq> [] \<Longrightarrow> joinSlash (e # es) = e @ CHR ''/'' # joinSlash es"
  by (cases es) auto

lemma joinSlash_elems: "joinSlash (elems p) = p"
proof (induction p)
  case Nil
  then show ?case by simp
next
  case (Cons c p)
  show ?case
  proof (cases "c = CHR ''/''")
    case True
    with Cons show ?thesis by (simp add: joinSlash_Cons)
  next
    case False
    obtain e es where e: "elems p = e # es" by (cases "elems p") auto
    with Cons False show ?thesis by (cases es) auto
  qed
qed

lemma elems_noslash: "e \<in> set (elems p) \<Longrightarrow> CHR ''/'' \<notin> set e"
  by (induction p arbitrary: e) (auto split: list.splits if_splits)

lemma elems_joinSlash:
  "cs \<noteq> [] \<Longrightarrow> \<forall>c\<in>set cs. CHR ''/'' \<notin> set c \<Longrightarrow> elems (joinSlash cs) = cs"
proof (induction cs)
  case Nil
  then show ?case by simp
next
  case (Cons c cs)
  show ?case
  proof (cases cs)
    case Nil
    with Cons.prems show ?thesis by (simp add: elems_noslash_one)
  next
    case (Cons d ds)
    with Cons.prems Cons.IH show ?thesis
      by (simp add: elems_append_slash elems_noslash_one)
  qed
qed

lemma joinSlash_append:
  "cs \<noteq> [] \<Longrightarrow> es \<noteq> [] \<Longrightarrow> joinSlash (cs @ es) = joinSlash cs @ CHR ''/'' # joinSlash es"
  by (induction cs rule: joinSlash.induct) (auto simp: joinSlash_Cons)

lemma cleanElems_normal:
  "\<forall>e\<in>set es. normalElem e \<Longrightarrow> cleanElems r out es = rev out @ es"
  by (induction es arbitrary: out) (auto simp: normalElem_def)

lemma cleanElems_append:
  "cleanElems r out (es1 @ es2) = cleanElems r (rev (cleanElems r out es1)) es2"
  by (induction es1 arbitrary: out) auto

lemma cleanElems_rooted_normal:
  "\<forall>e\<in>set out. normalElem e \<Longrightarrow> \<forall>e\<in>set es. CHR ''/'' \<notin> set e \<Longrightarrow>
     \<forall>e\<in>set (cleanElems True out es). normalElem e"
proof (induction es arbitrary: out)
  case Nil
  then show ?case by simp
next
  case (Cons e es)
  have es: "\<forall>e\<in>set es. CHR ''/'' \<notin> set e" and e: "CHR ''/'' \<notin> set e"
    using Cons.prems(2) by simp_all
  have tl: "\<forall>x\<in>set (tl out). normalElem x"
    using Cons.prems(1) by (cases out) auto
  consider "e = [] \<or> e = ''.''" | "e = ''..''" | "normalElem e"
    using e by (auto simp: normalElem_def)
  then show ?case
  proof cases
    case 1
    then show ?thesis using Cons.IH [OF Cons.prems(1) es] by auto
  next
    case 2
    then show ?thesis
      using Cons.IH [OF Cons.prems(1) es] Cons.IH [OF tl es] by simp
  next
    case 3
    then have "\<forall>x\<in>set (e # out). normalElem x" using Cons.prems(1) by simp
    from Cons.IH [OF this es] 3 show ?thesis by (simp add: normalElem_def)
  qed
qed

lemma IsAbs_iff: "IsAbs p \<longleftrightarrow> (\<exists>r. p = CHR ''/'' # r)"
  by (cases p) (auto simp: IsAbs_def)

lemma absPath_Nil [simp]: "absPath [] = ''/''"
  by (simp add: absPath_def)

lemma IsAbs_absPath [simp]: "IsAbs (absPath cs)"
  by (simp add: absPath_def IsAbs_def)

lemma elems_absPath:
  "\<forall>c\<in>set cs. normalElem c \<Longrightarrow> elems (absPath cs) = [] # (if cs = [] then [[]] else cs)"
  by (auto simp: absPath_def elems_joinSlash normalElem_def)

lemma Clean_abs:
  "IsAbs p \<Longrightarrow> Clean p = absPath (cleanElems True [] (elems p))"
  by (auto simp: Clean_def absPath_def IsAbs_iff)


lemma Clean_abs_normal:
  assumes "IsAbs p"
  obtains cs where "\<forall>c\<in>set cs. normalElem c" "Clean p = absPath cs"
  using assms Clean_abs [of p] cleanElems_rooted_normal [of "[]" "elems p"] elems_noslash [of _ p]
  by auto

lemma canonical_absPath:
  assumes "IsAbs p" "Clean p = p"
  obtains cs where "\<forall>c\<in>set cs. normalElem c" "p = absPath cs"
  using Clean_abs_normal [OF assms(1)] assms(2) by metis


lemma absPath_append:
  "cs \<noteq> [] \<Longrightarrow> es \<noteq> [] \<Longrightarrow> absPath (cs @ es) = absPath cs @ CHR ''/'' # joinSlash es"
  by (simp add: absPath_def joinSlash_append)

lemma Clean_absPath_slash:
  assumes "\<forall>c\<in>set cs. normalElem c" "\<forall>c\<in>set es. normalElem c"
  shows "Clean (absPath cs @ CHR ''/'' # joinSlash es) = absPath (cs @ es)"
proof -
  have abs: "IsAbs (absPath cs @ CHR ''/'' # joinSlash es)"
    by (simp add: absPath_def IsAbs_def)
  have el: "elems (absPath cs @ CHR ''/'' # joinSlash es) =
      ([] # (if cs = [] then [[]] else cs)) @ (if es = [] then [[]] else es)"
    using assms by (auto simp: elems_append_slash elems_absPath elems_joinSlash normalElem_def)
  have "cleanElems True [] (([] # (if cs = [] then [[]] else cs)) @ (if es = [] then [[]] else es)) = cs @ es"
    using assms by (auto simp: cleanElems_append cleanElems_normal)
  then show ?thesis by (simp add: Clean_abs [OF abs] el)
qed

lemma Join_absPath:
  assumes "\<forall>c\<in>set cs. normalElem c" "\<forall>c\<in>set es. normalElem c"
  shows "Join (absPath cs) (joinSlash es) = absPath (cs @ es)"
  using Clean_absPath_slash [OF assms] by (simp add: Join_def absPath_def)



lemma prefix_absPath_append:
  "cs \<noteq> [] \<Longrightarrow> es \<noteq> [] \<Longrightarrow> HasPrefix (absPath (cs @ es)) (absPath cs @ ''/'')"
  by (simp add: absPath_append HasPrefix_def)


text \<open>The cases of the tables that the tests of package \<^verbatim>\<open>path\<close> check.\<close>

lemma Clean_examples:
  "Clean [] = ''.''" "Clean ''abc'' = ''abc''" "Clean ''abc/def'' = ''abc/def''"
  "Clean ''a/b/c'' = ''a/b/c''" "Clean ''.'' = ''.''" "Clean ''..'' = ''..''"
  "Clean ''../..'' = ''../..''" "Clean ''../../abc'' = ''../../abc''" "Clean ''/abc'' = ''/abc''"
  "Clean ''/'' = ''/''" "Clean ''abc/'' = ''abc''" "Clean ''abc/def/'' = ''abc/def''"
  "Clean ''a/b/c/'' = ''a/b/c''" "Clean ''./'' = ''.''" "Clean ''../'' = ''..''"
  "Clean ''../../'' = ''../..''" "Clean ''/abc/'' = ''/abc''"
  "Clean ''abc//def//ghi'' = ''abc/def/ghi''" "Clean ''//abc'' = ''/abc''"
  "Clean ''///abc'' = ''/abc''" "Clean ''//abc//'' = ''/abc''" "Clean ''abc//'' = ''abc''"
  "Clean ''abc/./def'' = ''abc/def''" "Clean ''/./abc/def'' = ''/abc/def''"
  "Clean ''abc/.'' = ''abc''" "Clean ''abc/def/ghi/../jkl'' = ''abc/def/jkl''"
  "Clean ''abc/def/../ghi/../jkl'' = ''abc/jkl''" "Clean ''abc/def/..'' = ''abc''"
  "Clean ''abc/def/../..'' = ''.''" "Clean ''/abc/def/../..'' = ''/''"
  "Clean ''abc/def/../../..'' = ''..''" "Clean ''/abc/def/../../..'' = ''/''"
  "Clean ''abc/def/../../../ghi/jkl/../../../mno'' = ''../../mno''"
  "Clean ''abc/./../def'' = ''def''" "Clean ''abc//./../def'' = ''def''"
  "Clean ''abc/../../././../def'' = ''../../def''"
  by (simp_all add: Clean_def IsAbs_def)

lemma Join_examples:
  "Join ''a'' ''b'' = ''a/b''" "Join ''a'' [] = ''a''" "Join [] ''b'' = ''b''"
  "Join ''/'' ''a'' = ''/a''" "Join ''/'' [] = ''/''" "Join ''a/'' ''b'' = ''a/b''"
  "Join ''a/'' [] = ''a''" "Join [] [] = []"
  by (simp_all add: Join_def Clean_def IsAbs_def)

lemma Dir_examples:
  "Dir [] = ''.''" "Dir ''.'' = ''.''" "Dir ''/.'' = ''/''" "Dir ''/'' = ''/''"
  "Dir ''////'' = ''/''" "Dir ''/foo'' = ''/''" "Dir ''x/'' = ''x''" "Dir ''abc'' = ''.''"
  "Dir ''abc/def'' = ''abc''" "Dir ''abc////def'' = ''abc''" "Dir ''a/b/.x'' = ''a/b''"
  "Dir ''a/b/c.'' = ''a/b''" "Dir ''a/b/c.x'' = ''a/b''"
  by (simp_all add: Dir_def Clean_def IsAbs_def)

section \<open>Facts about the stores\<close>

lemmas ex_defs = exCtx_def exDocs_def exOffline_def exDocsDir_def noChange_def exSnapshot_def
  exListOrder_def exLastFirst_def
  RootFolderID_def DirType_def FileType_def

lemmas run_defs = ModifyDirectoryMetadata_def CreateDirectory_def getFilePath_def GetDirDoc_def
  GetDoc_def CreateDoc_def newID_def Mkdir_def Remove_def Let_def NewDirDoc_def checkFileName_def
  getRootDirDoc_def stored_def decode_def Join_def Dir_def Clean_def IsAbs_def
  safeRenameDirectory_def HasPrefix_def Stat_def Rename_def moved_def bulkUpdateDocsPath_def
  FindDocs_def fixChild_def UpdateDoc_def nextRev_def appendTags_def fanout_def inOrder_def

lemma map_of_replace:
  "map_of (map (\<lambda>(i, x). if i = k then (i, v) else (i, x)) xs) j =
     (if j = k then (case map_of xs k of None \<Rightarrow> None | Some _ \<Rightarrow> Some v) else map_of xs j)"
  by (induction xs) auto

lemma UpdateDoc_Inr:
  assumes "UpdateDoc d doc = Inr (d', doc')"
  shows "online d" and "\<exists>cur. map_of (docs d) (ObjID doc) = Some cur \<and> ObjRev cur = ObjRev doc"
    and "doc' = doc\<lparr>ObjRev := nextRev (ObjRev doc)\<rparr>"
    and "d' = d\<lparr>docs := map (\<lambda>(i, x). if i = ObjID doc then (i, stored doc') else (i, x)) (docs d)\<rparr>"
  using assms by (auto simp: UpdateDoc_def Let_def split: if_splits option.splits)

lemma UpdateDoc_lookup:
  assumes "UpdateDoc d doc = Inr (d', doc')"
  shows "map_of (docs d') j = (if j = ObjID doc then Some (stored doc') else map_of (docs d) j)"
  using UpdateDoc_Inr [OF assms] by (auto simp: map_of_replace)

lemma UpdateDoc_Inl:
  "UpdateDoc d doc = Inl err \<Longrightarrow> err \<in> {CouchUnavailable, CouchNotFound, CouchConflict}"
  by (auto simp: UpdateDoc_def Let_def split: if_splits option.splits)

lemma NewDirDoc_Inr:
  assumes "NewDirDoc now name folderID tags par = Inr fresh"
  shows "name \<noteq> []" "CHR ''/'' \<notin> set name" "Name fresh = name" "Type fresh = DirType"
    "FolderID fresh = (if folderID = [] then RootFolderID else folderID)" "Tags fresh = tags"
  using assms by (auto simp: NewDirDoc_def checkFileName_def Let_def split: if_splits option.splits)

lemma NewDirDoc_Inl: "NewDirDoc now name folderID tags par = Inl err \<Longrightarrow> err = ErrIllegalFilename"
  by (auto simp: NewDirDoc_def checkFileName_def Let_def split: if_splits option.splits)

lemma GetDirDoc_plain_Inl:
  "GetDirDoc c i False = Inl err \<Longrightarrow> err \<in> {ErrParentDoesNotExist, CouchUnavailable, ErrNotExist}"
  by (auto simp: GetDirDoc_def GetDoc_def Let_def split: if_splits option.splits sum.splits)

lemma getFilePath_Inl:
  "getFilePath c name i = Inl err \<Longrightarrow> err \<in> {ErrParentDoesNotExist, CouchUnavailable, ErrIllegalFilename}"
  by (auto simp: getFilePath_def checkFileName_def split: if_splits option.splits sum.splits
      dest: GetDirDoc_plain_Inl)

lemma resolved_Inl:
  "resolved c olddoc data = Inl err \<Longrightarrow> err \<in> {ErrParentDoesNotExist, CouchUnavailable, ErrIllegalFilename}"
  by (auto simp: resolved_def split: if_splits option.splits sum.splits prod.splits
      dest: getFilePath_Inl)

lemma fixChild_err:
  "fixChild d oldpath newpath child = (d', Some err) \<Longrightarrow>
     d' = d \<and> err \<in> {Errorf ''Child has wrong base directory'', CouchUnavailable, CouchNotFound, CouchConflict}"
  by (auto simp: fixChild_def split: if_splits sum.splits dest: UpdateDoc_Inl)

section \<open>Facts about the fan-out\<close>

lemma stored_Document [simp]: "stored (x :: Document) = x"
  by (simp add: stored_def)

lemma keyed_lookup: "keyed d \<Longrightarrow> (i, x) \<in> set (docs d) \<Longrightarrow> map_of (docs d) i = Some x"
  by (simp add: keyed_def)

lemma keyed_ObjID: "keyed d \<Longrightarrow> map_of (docs d) i = Some x \<Longrightarrow> ObjID x = i"
  by (auto simp: keyed_def dest: map_of_SomeD)

lemma fixChild_ok:
  assumes "HasPrefix (Path child) (oldpath @ ''/'')" "online d"
    "map_of (docs d) (ObjID child) = Some cur" "ObjRev cur = ObjRev child"
  shows "fixChild d oldpath newpath child =
    (d\<lparr>docs := map (\<lambda>(i, x). if i = ObjID child then (i, relocated oldpath newpath child) else (i, x)) (docs d)\<rparr>, None)"
  using assms by (simp add: fixChild_def UpdateDoc_def relocated_def Let_def cong: if_cong)

lemma fixChild_frame:
  assumes "fixChild d oldpath newpath child = (d', r)"
  shows "online d' = online d" "map fst (docs d') = map fst (docs d)"
    "j \<noteq> ObjID child \<Longrightarrow> map_of (docs d') j = map_of (docs d) j"
proof -
  have "d' = d \<or> (\<exists>doc'. UpdateDoc d (child\<lparr>Path := Join newpath (drop (length oldpath + 1) (Path child))\<rparr>) = Inr (d', doc'))"
    using assms by (auto simp: fixChild_def split: if_splits sum.splits)
  then show "online d' = online d" "map fst (docs d') = map fst (docs d)"
    "j \<noteq> ObjID child \<Longrightarrow> map_of (docs d') j = map_of (docs d) j"
    by (auto dest!: UpdateDoc_Inr(4) simp: map_of_replace comp_def case_prod_beta)
qed

lemma fixChild_unitOK:
  assumes "unitOK d oldpath child"
  shows "fixChild d oldpath newpath child =
    (d\<lparr>docs := map (\<lambda>(i, x). if i = ObjID child then (i, relocated oldpath newpath child) else (i, x)) (docs d)\<rparr>, None)"
proof -
  from assms obtain cur where "HasPrefix (Path child) (oldpath @ ''/'')" "online d"
    "map_of (docs d) (ObjID child) = Some cur" "ObjRev cur = ObjRev child"
    by (auto simp: unitOK_def split: option.splits)
  then show ?thesis by (rule fixChild_ok)
qed

lemma fixChild_failed:
  assumes "\<not> unitOK d oldpath child"
  shows "fst (fixChild d oldpath newpath child) = d" "snd (fixChild d oldpath newpath child) \<noteq> None"
  using assms
  by (auto simp: unitOK_def fixChild_def UpdateDoc_def Let_def split: option.splits)

lemma fixChild_None: "snd (fixChild d oldpath newpath child) = None \<longleftrightarrow> unitOK d oldpath child"
  using fixChild_unitOK [of d oldpath child newpath] fixChild_failed(2) [of d oldpath child newpath]
  by (cases "unitOK d oldpath child") auto

lemma fixChild_sent:
  assumes "online d1 = online d" "map_of (docs d1) (ObjID child) = map_of (docs d) (ObjID child)"
  shows "snd (fixChild d1 oldpath newpath child) = snd (fixChild d oldpath newpath child)"
  using assms
  by (auto simp: fixChild_def UpdateDoc_def Let_def split: option.splits)

lemma unitOK_frame:
  assumes "fixChild d oldpath newpath c = (d1, r)" "ObjID child \<noteq> ObjID c"
  shows "unitOK d1 oldpath child = unitOK d oldpath child"
  using fixChild_frame(1) [OF assms(1)] fixChild_frame(3) [OF assms(1), of "ObjID child"] assms(2)
  by (simp add: unitOK_def)

lemma receive_None: "receive arrived err = None \<longleftrightarrow> err = None \<and> (\<forall>e\<in>set arrived. e = None)"
  by (induction arrived err rule: receive.induct) auto

lemma receive_Some: "receive arrived err = Some e \<Longrightarrow> err = Some e \<or> Some e \<in> set arrived"
  by (induction arrived err rule: receive.induct) auto

lemma receive_last:
  "receive (arrived @ [Some e]) err = Some e"
  by (induction arrived err rule: receive.induct) auto

lemma runUnits_frame:
  "runUnits d oldpath newpath units = (d', sent) \<Longrightarrow>
     online d' = online d \<and> map fst (docs d') = map fst (docs d) \<and> map fst sent = map fst units \<and>
     (j \<notin> ObjID ` snd ` set units \<longrightarrow> map_of (docs d') j = map_of (docs d) j)"
proof (induction units arbitrary: d d' sent)
  case Nil
  then show ?case by simp
next
  case (Cons u units)
  obtain n child where u: "u = (n, child)" by (cases u)
  obtain d1 e where f: "fixChild d oldpath newpath child = (d1, e)"
    by (cases "fixChild d oldpath newpath child")
  obtain d2 sent2 where r: "runUnits d1 oldpath newpath units = (d2, sent2)"
    by (cases "runUnits d1 oldpath newpath units")
  have res: "d' = d2" "sent = (n, e) # sent2"
    using Cons.prems u f r by simp_all
  from Cons.IH [OF r] fixChild_frame(1,2) [OF f] fixChild_frame(3) [OF f, of j] res u
  show ?case by auto
qed

lemma runUnits_sent:
  assumes "distinct (map (ObjID \<circ> snd) units)"
  shows "snd (runUnits d oldpath newpath units) =
    map (\<lambda>(n, child). (n, snd (fixChild d oldpath newpath child))) units"
  using assms
proof (induction units arbitrary: d)
  case Nil
  then show ?case by simp
next
  case (Cons u units)
  obtain n child where u: "u = (n, child)" by (cases u)
  obtain d1 e where f: "fixChild d oldpath newpath child = (d1, e)"
    by (cases "fixChild d oldpath newpath child")
  obtain d2 sent2 where r: "runUnits d1 oldpath newpath units = (d2, sent2)"
    by (cases "runUnits d1 oldpath newpath units")
  have dist: "distinct (map (ObjID \<circ> snd) units)" using Cons.prems by (simp add: comp_def)
  have notin: "ObjID child \<notin> ObjID ` snd ` set units"
    using Cons.prems u by (simp add: comp_def image_image)
  have "sent2 = map (\<lambda>(n, child). (n, snd (fixChild d1 oldpath newpath child))) units"
    using Cons.IH [OF dist, of d1] r by simp
  also have "\<dots> = map (\<lambda>(n, child). (n, snd (fixChild d oldpath newpath child))) units"
  proof (rule map_cong [OF refl])
    fix v assume v: "v \<in> set units"
    obtain m c where vc: "v = (m, c)" by (cases v)
    have "ObjID c \<in> ObjID ` snd ` set units" using v vc by force
    then have ne: "ObjID c \<noteq> ObjID child" using notin by metis
    have "snd (fixChild d1 oldpath newpath c) = snd (fixChild d oldpath newpath c)"
      using fixChild_frame(1) [OF f] fixChild_frame(3) [OF f ne] by (rule fixChild_sent)
    then show "(case v of (n, child) \<Rightarrow> (n, snd (fixChild d1 oldpath newpath child))) =
        (case v of (n, child) \<Rightarrow> (n, snd (fixChild d oldpath newpath child)))"
      by (simp add: vc)
  qed
  finally show ?case using u f r by simp
qed

lemma runUnits_child:
  assumes "distinct (map (ObjID \<circ> snd) units)" "(n, child) \<in> set units"
  shows "map_of (docs (fst (runUnits d oldpath newpath units))) (ObjID child) =
    (if unitOK d oldpath child then Some (relocated oldpath newpath child)
     else map_of (docs d) (ObjID child))"
  using assms
proof (induction units arbitrary: d)
  case Nil
  then show ?case by simp
next
  case (Cons u units)
  obtain m c where u: "u = (m, c)" by (cases u)
  obtain d1 e where f: "fixChild d oldpath newpath c = (d1, e)"
    by (cases "fixChild d oldpath newpath c")
  obtain d2 sent2 where r: "runUnits d1 oldpath newpath units = (d2, sent2)"
    by (cases "runUnits d1 oldpath newpath units")
  have res: "fst (runUnits d oldpath newpath (u # units)) = d2"
    using u f r by simp
  have dist: "distinct (map (ObjID \<circ> snd) units)"
    using Cons.prems(1) by (simp add: comp_def)
  have notin: "ObjID c \<notin> ObjID ` snd ` set units"
    using Cons.prems(1) u by (simp add: comp_def image_image)
  show ?case
  proof (cases "(n, child) \<in> set units")
    case True
    then have "ObjID child \<in> ObjID ` snd ` set units" by force
    with notin have ne: "ObjID child \<noteq> ObjID c" by metis
    from Cons.IH [OF dist True, of d1] r unitOK_frame [OF f ne] fixChild_frame(3) [OF f ne] res
    show ?thesis by simp
  next
    case False
    with Cons.prems(2) u have eq: "c = child" by simp
    have same: "map_of (docs d2) (ObjID child) = map_of (docs d1) (ObjID child)"
      using runUnits_frame [OF r, of "ObjID child"] notin eq by simp
    show ?thesis
    proof (cases "unitOK d oldpath child")
      case True
      then obtain cur where cur: "map_of (docs d) (ObjID child) = Some cur"
        by (auto simp: unitOK_def split: option.splits)
      have "map_of (docs d1) (ObjID child) = Some (relocated oldpath newpath child)"
        using fixChild_unitOK [OF True, of newpath] f eq by (auto simp: map_of_replace cur)
      with same res True show ?thesis by simp
    next
      case False
      then have "d1 = d" using fixChild_failed(1) [OF False, of newpath] f eq by simp
      with same res False show ?thesis by simp
    qed
  qed
qed

lemma inOrder_set [simp]: "set (inOrder moment units) = set units"
  by (simp add: inOrder_def)

lemma inOrder_distinct:
  "distinct (map g (inOrder moment units)) = distinct (map g units)"
  by (simp add: inOrder_def distinct_map)

lemma enumerate_children:
  "snd ` set (enumerate 0 children) = set children"
  "map (ObjID \<circ> snd) (enumerate 0 children) = map ObjID children"
proof -
  have "map snd (enumerate 0 children) = children" by (rule map_snd_enumerate)
  then show "snd ` set (enumerate 0 children) = set children"
    by (metis set_map)
  show "map (ObjID \<circ> snd) (enumerate 0 children) = map ObjID children"
    by (metis map_map map_snd_enumerate)
qed

lemma fanout_run:
  obtains d' sent where
    "runUnits d oldpath newpath (inOrder (writesAt sched) (enumerate 0 children)) = (d', sent)"
    "fanout d oldpath newpath children sched = (d', receive (map snd (inOrder (arrivesAt sched) sent)) None)"
  by (cases "runUnits d oldpath newpath (inOrder (writesAt sched) (enumerate 0 children))")
    (simp add: fanout_def)

lemma fanout_Nil [simp]: "fanout d oldpath newpath [] sched = (d, None)"
  by (simp add: fanout_def inOrder_def)

lemma fanout_frame:
  assumes "fanout d oldpath newpath children sched = (d', r)"
  shows "online d' = online d" "map fst (docs d') = map fst (docs d)"
    "j \<notin> ObjID ` set children \<Longrightarrow> map_of (docs d') j = map_of (docs d) j"
proof -
  obtain d1 sent where
    run: "runUnits d oldpath newpath (inOrder (writesAt sched) (enumerate 0 children)) = (d1, sent)"
    and fo: "fanout d oldpath newpath children sched = (d1, receive (map snd (inOrder (arrivesAt sched) sent)) None)"
    by (rule fanout_run)
  have d1: "d1 = d'" using assms fo by simp
  note fr = runUnits_frame [OF run, of j, unfolded inOrder_set enumerate_children(1) d1]
  from fr show "online d' = online d" "map fst (docs d') = map fst (docs d)" by simp_all
  from fr show "j \<notin> ObjID ` set children \<Longrightarrow> map_of (docs d') j = map_of (docs d) j" by simp
qed

lemma fanout_child:
  assumes "distinct (map ObjID children)" "child \<in> set children"
  shows "map_of (docs (fst (fanout d oldpath newpath children sched))) (ObjID child) =
    (if unitOK d oldpath child then Some (relocated oldpath newpath child)
     else map_of (docs d) (ObjID child))"
proof -
  obtain d1 sent where
    run: "runUnits d oldpath newpath (inOrder (writesAt sched) (enumerate 0 children)) = (d1, sent)"
    and fo: "fanout d oldpath newpath children sched = (d1, receive (map snd (inOrder (arrivesAt sched) sent)) None)"
    by (rule fanout_run)
  have dist: "distinct (map (ObjID \<circ> snd) (inOrder (writesAt sched) (enumerate 0 children)))"
    using assms(1) by (simp only: inOrder_distinct enumerate_children(2))
  obtain n where "(n, child) \<in> set (inOrder (writesAt sched) (enumerate 0 children))"
    using assms(2) enumerate_children(1) [of children] by force
  from runUnits_child [OF dist this, of d oldpath newpath] run fo show ?thesis by simp
qed

lemma fanout_sent:
  assumes "distinct (map ObjID children)"
  shows "snd (fanout d oldpath newpath children sched) = None \<longleftrightarrow>
      (\<forall>child\<in>set children. unitOK d oldpath child)"
    and "snd (fanout d oldpath newpath children sched) = Some e \<Longrightarrow>
      \<exists>child\<in>set children. \<not> unitOK d oldpath child \<and> snd (fixChild d oldpath newpath child) = Some e"
proof -
  obtain d1 sent where
    run: "runUnits d oldpath newpath (inOrder (writesAt sched) (enumerate 0 children)) = (d1, sent)"
    and fo: "fanout d oldpath newpath children sched = (d1, receive (map snd (inOrder (arrivesAt sched) sent)) None)"
    by (rule fanout_run)
  have dist: "distinct (map (ObjID \<circ> snd) (inOrder (writesAt sched) (enumerate 0 children)))"
    using assms(1) by (simp only: inOrder_distinct enumerate_children(2))
  have sent: "sent = map (\<lambda>(n, child). (n, snd (fixChild d oldpath newpath child)))
      (inOrder (writesAt sched) (enumerate 0 children))"
    using runUnits_sent [OF dist, of d oldpath newpath] run by simp
  have arrived: "set (map snd (inOrder (arrivesAt sched) sent)) =
      (\<lambda>child. snd (fixChild d oldpath newpath child)) ` set children"
    unfolding sent using enumerate_children(1) [of children] by (force simp: image_iff)
  show "snd (fanout d oldpath newpath children sched) = None \<longleftrightarrow>
      (\<forall>child\<in>set children. unitOK d oldpath child)"
    unfolding fo snd_conv receive_None arrived by (auto simp: fixChild_None)
  show "\<exists>child\<in>set children. \<not> unitOK d oldpath child \<and> snd (fixChild d oldpath newpath child) = Some e"
    if "snd (fanout d oldpath newpath children sched) = Some e"
  proof -
    from that have "Some e \<in> set (map snd (inOrder (arrivesAt sched) sent))"
      unfolding fo snd_conv by (auto dest: receive_Some)
    then obtain child where "child \<in> set children" "snd (fixChild d oldpath newpath child) = Some e"
      unfolding arrived by auto
    moreover from this have "\<not> unitOK d oldpath child"
      using fixChild_None [of d oldpath newpath child] by auto
    ultimately show ?thesis by auto
  qed
qed

lemma fanout_err:
  assumes "fanout d oldpath newpath children sched = (d', Some err)"
  shows "err \<in> {Errorf ''Child has wrong base directory'', CouchUnavailable, CouchNotFound, CouchConflict}"
proof -
  obtain d1 sent where
    run: "runUnits d oldpath newpath (inOrder (writesAt sched) (enumerate 0 children)) = (d1, sent)"
    and fo: "fanout d oldpath newpath children sched = (d1, receive (map snd (inOrder (arrivesAt sched) sent)) None)"
    by (rule fanout_run)
  have "Some err \<in> snd ` set sent"
    using assms fo by (auto dest!: receive_Some)
  moreover have "Some err \<in> snd ` set sent' \<Longrightarrow> runUnits d0 oldpath newpath units = (d2, sent') \<Longrightarrow>
    err \<in> {Errorf ''Child has wrong base directory'', CouchUnavailable, CouchNotFound, CouchConflict}"
    for units d0 d2 sent'
  proof (induction units arbitrary: d0 d2 sent')
    case Nil
    then show ?case by simp
  next
    case (Cons u units)
    obtain n child where u: "u = (n, child)" by (cases u)
    obtain d3 e where f: "fixChild d0 oldpath newpath child = (d3, e)"
      by (cases "fixChild d0 oldpath newpath child")
    obtain d4 sent4 where r: "runUnits d3 oldpath newpath units = (d4, sent4)"
      by (cases "runUnits d3 oldpath newpath units")
    have "sent' = (n, e) # sent4" using Cons.prems(2) u f r by simp
    with Cons.prems(1) have "e = Some err \<or> Some err \<in> snd ` set sent4" by auto
    then show ?case
    proof
      assume "e = Some err"
      with f fixChild_err [of d0 oldpath newpath child d3 err] show ?thesis by simp
    next
      assume "Some err \<in> snd ` set sent4"
      from Cons.IH [OF this r] show ?thesis .
    qed
  qed
  ultimately show ?thesis using run by blast
qed

lemma fanout_fresh:
  assumes "online d" "distinct (map ObjID children)"
    "\<forall>ch\<in>set children. map_of (docs d) (ObjID ch) = Some ch \<and> HasPrefix (Path ch) (oldpath @ ''/'')"
  shows "snd (fanout d oldpath newpath children sched) = None"
    and "map_of (docs (fst (fanout d oldpath newpath children sched))) j =
      (if j \<in> ObjID ` set children then map_option (relocated oldpath newpath) (map_of (docs d) j)
       else map_of (docs d) j)"
proof -
  have ok: "unitOK d oldpath ch" if "ch \<in> set children" for ch
    using assms(1,3) that by (simp add: unitOK_def)
  then show "snd (fanout d oldpath newpath children sched) = None"
    using fanout_sent(1) [OF assms(2)] by simp
  show "map_of (docs (fst (fanout d oldpath newpath children sched))) j =
      (if j \<in> ObjID ` set children then map_option (relocated oldpath newpath) (map_of (docs d) j)
       else map_of (docs d) j)"
  proof (cases "j \<in> ObjID ` set children")
    case True
    then obtain ch where ch: "ch \<in> set children" "j = ObjID ch" by auto
    from fanout_child [OF assms(2) ch(1), of d oldpath newpath sched] ok [OF ch(1)] ch assms(3)
    show ?thesis by simp
  next
    case False
    then show ?thesis
      using fanout_frame(3) [of d oldpath newpath children sched _ _ j]
      by (cases "fanout d oldpath newpath children sched") simp
  qed
qed

lemma bulkUpdateDocsPath_err:
  "bulkUpdateDocsPath c olddoc newpath sched = (c', Some err) \<Longrightarrow>
     err \<in> {Errorf ''Child has wrong base directory'', CouchUnavailable, CouchNotFound, CouchConflict}"
  by (auto simp: bulkUpdateDocsPath_def FindDocs_def Let_def
      split: if_splits sum.splits prod.splits dest: fanout_err)

lemma position_distinct:
  assumes "distinct ks" "i < length ks"
  shows "length (takeWhile (\<lambda>k. k \<noteq> ks ! i) ks) = i"
  using assms
proof (induction ks arbitrary: i)
  case Nil
  then show ?case by simp
next
  case (Cons k ks)
  show ?case
  proof (cases i)
    case 0
    then show ?thesis by simp
  next
    case (Suc j)
    then have j: "j < length ks" using Cons.prems(2) by simp
    then have "ks ! j \<in> set ks" by simp
    then have ne: "k \<noteq> ks ! j" using Cons.prems(1) by auto
    have d: "distinct ks" using Cons.prems(1) by simp
    have nth: "(k # ks) ! Suc j = ks ! j" by simp
    have "takeWhile (\<lambda>x. x \<noteq> ks ! j) (k # ks) = k # takeWhile (\<lambda>x. x \<noteq> ks ! j) ks"
      using ne by simp
    then have "length (takeWhile (\<lambda>x. x \<noteq> ks ! j) (k # ks)) = Suc j"
      using Cons.IH [OF d j] by simp
    then show ?thesis unfolding Suc nth .
  qed
qed

lemma positions_distinct:
  assumes "distinct ks"
  shows "map (\<lambda>n. length (takeWhile (\<lambda>k. k \<noteq> n) ks)) ks = [0..<length ks]"
proof (rule nth_equalityI)
  show "length (map (\<lambda>n. length (takeWhile (\<lambda>k. k \<noteq> n) ks)) ks) = length [0..<length ks]"
    by simp
next
  fix i assume "i < length (map (\<lambda>n. length (takeWhile (\<lambda>k. k \<noteq> n) ks)) ks)"
  then have i: "i < length ks" by simp
  show "map (\<lambda>n. length (takeWhile (\<lambda>k. k \<noteq> n) ks)) ks ! i = [0..<length ks] ! i"
    using position_distinct [OF assms i] i by simp
qed

lemma inOrder_any:
  assumes "distinct ys" "set ys = set units" "distinct (map fst units)"
  shows "\<exists>moment. inOrder moment units = ys"
proof -
  define moment where "moment n = length (takeWhile (\<lambda>k. k \<noteq> n) (map fst ys))" for n
  let ?f = "moment \<circ> fst"
  have inj: "inj_on fst (set units)" and du: "distinct units"
    using assms(3) by (simp_all add: distinct_map)
  have dy: "distinct (map fst ys)"
    using assms(1,2) inj by (simp add: distinct_map)
  have "map ?f ys = map (\<lambda>n. length (takeWhile (\<lambda>k. k \<noteq> n) (map fst ys))) (map fst ys)"
    by (simp add: moment_def comp_def)
  also have "\<dots> = [0..<length ys]"
    using positions_distinct [OF dy] by simp
  finally have keys: "map ?f ys = [0..<length ys]" .
  have sy: "sorted (map ?f ys)" "distinct (map ?f ys)"
    unfolding keys by simp_all
  then have injf: "inj_on ?f (set units)"
    using assms(2) by (simp add: distinct_map)
  have "map ?f (sort_key ?f units) = map ?f ys"
  proof (rule sorted_distinct_set_unique)
    show "sorted (map ?f (sort_key ?f units))" by (rule sorted_sort_key)
    show "distinct (map ?f (sort_key ?f units))"
      using injf du by (simp add: distinct_map)
    show "sorted (map ?f ys)" "distinct (map ?f ys)" by fact+
    show "set (map ?f (sort_key ?f units)) = set (map ?f ys)"
      using assms(2) by simp
  qed
  moreover have "inj_on ?f (set (sort_key ?f units) \<union> set ys)"
    using injf assms(2) by simp
  ultimately have "sort_key ?f units = ys"
    by (simp add: inj_on_map_eq_map)
  then show ?thesis by (auto simp: inOrder_def)
qed

lemma schedule_any:
  assumes "distinct ys" "set ys = set (enumerate 0 children)"
  shows "\<exists>sched :: Schedule. inOrder (writesAt sched) (enumerate 0 children) = ys"
proof -
  have "distinct (map fst (enumerate 0 children))" by (simp add: map_fst_enumerate)
  from inOrder_any [OF assms this] obtain moment where
    m: "inOrder moment (enumerate 0 children) = ys" by blast
  define sched where "sched = \<lparr>writesAt = moment, arrivesAt = moment\<rparr>"
  have "writesAt sched = moment" by (simp add: sched_def)
  with m have "inOrder (writesAt sched) (enumerate 0 children) = ys" by simp
  then show ?thesis by (rule exI)
qed

lemma sorted_le_last: "sorted xs \<Longrightarrow> x \<in> set xs \<Longrightarrow> x \<le> last (xs :: nat list)"
  by (induction xs) auto

lemma receive_last_arrival:
  assumes "arrived \<noteq> []" "last arrived = Some e"
  shows "receive arrived err = Some e"
proof -
  have "arrived = butlast arrived @ [Some e]"
    using assms by (metis append_butlast_last_id)
  then show ?thesis using receive_last [of "butlast arrived" e err] by simp
qed

lemma fanout_any_error:
  assumes "distinct (map ObjID children)" "child \<in> set children"
    "snd (fixChild d oldpath newpath child) = Some e"
  shows "\<exists>sched. snd (fanout d oldpath newpath children sched) = Some e"
proof -
  obtain n where n: "(n, child) \<in> set (enumerate 0 children)"
    using assms(2) enumerate_children(1) [of children] by force
  define sched where "sched = \<lparr>writesAt = (\<lambda>k. k), arrivesAt = (\<lambda>k. if k = n then 1 else 0 :: nat)\<rparr>"
  let ?f = "arrivesAt sched \<circ> fst"
  obtain d1 sent where
    run: "runUnits d oldpath newpath (inOrder (writesAt sched) (enumerate 0 children)) = (d1, sent)"
    and fo: "fanout d oldpath newpath children sched = (d1, receive (map snd (inOrder (arrivesAt sched) sent)) None)"
    by (rule fanout_run)
  have dist: "distinct (map (ObjID \<circ> snd) (inOrder (writesAt sched) (enumerate 0 children)))"
    using assms(1) by (simp only: inOrder_distinct enumerate_children(2))
  have sent: "sent = map (\<lambda>(n, child). (n, snd (fixChild d oldpath newpath child)))
      (inOrder (writesAt sched) (enumerate 0 children))"
    using runUnits_sent [OF dist, of d oldpath newpath] run by simp
  have mem: "(n, Some e) \<in> set sent"
    unfolding sent using n assms(3) by force
  have "map fst sent = map fst (inOrder (writesAt sched) (enumerate 0 children))"
    unfolding sent by (simp add: comp_def case_prod_beta)
  then have keys: "distinct (map fst sent)"
    by (simp add: inOrder_distinct map_fst_enumerate)
  define ys where "ys = inOrder (arrivesAt sched) sent"
  have set_ys: "set ys = set sent" by (simp add: ys_def)
  then have ne: "ys \<noteq> []" using mem by auto
  have "sorted (map ?f ys)" unfolding ys_def inOrder_def by (rule sorted_sort_key)
  moreover have "?f (n, Some e) \<in> set (map ?f ys)" using mem set_ys by force
  ultimately have "?f (n, Some e) \<le> last (map ?f ys)"
    by (rule sorted_le_last)
  then have "1 \<le> ?f (last ys)" using ne by (simp add: last_map sched_def)
  then have "fst (last ys) = n" by (simp add: sched_def split: if_splits)
  moreover have "last ys \<in> set sent" using ne set_ys last_in_set by blast
  ultimately have "(n, snd (last ys)) \<in> set sent" by (metis prod.collapse)
  with mem keys have "snd (last ys) = Some e" by (metis eq_key_imp_eq_value)
  then have "last (map snd ys) = Some e" using ne by (simp add: last_map)
  then have "receive (map snd ys) None = Some e"
    using ne by (intro receive_last_arrival) simp_all
  then have "snd (fanout d oldpath newpath children sched) = Some e"
    unfolding fo ys_def by simp
  then show ?thesis by blast
qed

lemma keyed_children:
  assumes "keyed d"
  shows "distinct (map ObjID (filter P (map snd (docs d))))"
    and "\<forall>ch\<in>set (filter P (map snd (docs d))). map_of (docs d) (ObjID ch) = Some ch \<and> P ch"
    and "j \<in> ObjID ` set (filter P (map snd (docs d))) \<longleftrightarrow> (\<exists>x. map_of (docs d) j = Some x \<and> P x)"
proof -
  have ids: "map ObjID (map snd (docs d)) = map fst (docs d)"
    using assms by (auto simp: keyed_def)
  have "distinct (map ObjID (map snd (docs d)))"
    unfolding ids using assms by (simp add: keyed_def)
  then show "distinct (map ObjID (filter P (map snd (docs d))))"
    by (rule distinct_map_filter)
  have mem: "x \<in> set (map snd (docs d)) \<longleftrightarrow> map_of (docs d) (ObjID x) = Some x" for x
  proof
    assume "x \<in> set (map snd (docs d))"
    then obtain i where "(i, x) \<in> set (docs d)" by auto
    then show "map_of (docs d) (ObjID x) = Some x"
      using assms by (auto simp: keyed_def)
  next
    assume "map_of (docs d) (ObjID x) = Some x"
    then have "(ObjID x, x) \<in> set (docs d)" by (rule map_of_SomeD)
    then show "x \<in> set (map snd (docs d))" by force
  qed
  show "\<forall>ch\<in>set (filter P (map snd (docs d))). map_of (docs d) (ObjID ch) = Some ch \<and> P ch"
    using mem by simp
  show "j \<in> ObjID ` set (filter P (map snd (docs d))) \<longleftrightarrow> (\<exists>x. map_of (docs d) j = Some x \<and> P x)"
  proof
    assume "j \<in> ObjID ` set (filter P (map snd (docs d)))"
    then obtain x where "x \<in> set (map snd (docs d))" "P x" "j = ObjID x" by auto
    then show "\<exists>x. map_of (docs d) j = Some x \<and> P x" using mem by auto
  next
    assume "\<exists>x. map_of (docs d) j = Some x \<and> P x"
    then obtain x where x: "map_of (docs d) j = Some x" "P x" by auto
    then have "ObjID x = j" using assms keyed_ObjID by blast
    moreover have "x \<in> set (filter P (map snd (docs d)))"
      using x mem [of x] \<open>ObjID x = j\<close> by simp
    ultimately show "j \<in> ObjID ` set (filter P (map snd (docs d)))"
      by (metis image_eqI)
  qed
qed

lemma bulkUpdateDocsPath_offline:
  "\<not> online (db c) \<Longrightarrow> bulkUpdateDocsPath c olddoc newpath sched = (c, Some CouchUnavailable)"
  by (simp add: bulkUpdateDocsPath_def FindDocs_def)

lemma bulkUpdateDocsPath_fresh:
  assumes "keyed (db c)" "online (db c)"
  shows "\<exists>c'. bulkUpdateDocsPath c olddoc newpath sched = (c', None) \<and> fs c' = fs c \<and> online (db c') \<and>
    map fst (docs (db c')) = map fst (docs (db c)) \<and>
    (\<forall>j. map_of (docs (db c')) j =
       map_option (\<lambda>x. if HasPrefix (Path x) (Clean (Path olddoc) @ ''/'')
                        then relocated (Clean (Path olddoc)) newpath x else x)
         (map_of (docs (db c)) j))"
proof -
  define oldpath where "oldpath = Clean (Path olddoc)"
  define P where "P = (\<lambda>x :: Document. HasPrefix (Path x) (oldpath @ ''/''))"
  define children where "children = filter P (map snd (docs (db c)))"
  have find: "FindDocs (db c) (StartWithPath (oldpath @ ''/'')) None = Inr children"
    using assms(2) by (simp add: FindDocs_def children_def P_def cong: filter_cong)
  note kc = keyed_children [OF assms(1), where P = P, folded children_def]
  obtain d' r where fo: "fanout (db c) oldpath newpath children sched = (d', r)"
    by (cases "fanout (db c) oldpath newpath children sched")
  have pre: "\<forall>ch\<in>set children. map_of (docs (db c)) (ObjID ch) = Some ch \<and> HasPrefix (Path ch) (oldpath @ ''/'')"
    using kc(2) by (simp add: P_def)
  have fr: "r = None" "\<And>j. map_of (docs d') j =
      (if j \<in> ObjID ` set children then map_option (relocated oldpath newpath) (map_of (docs (db c)) j)
       else map_of (docs (db c)) j)"
    using fanout_fresh [OF assms(2) kc(1) pre, of newpath sched] fo by simp_all
  have frame: "online d' = online (db c)" "map fst (docs d') = map fst (docs (db c))"
    using fanout_frame(1,2) [OF fo] by simp_all
  have look: "map_of (docs d') j =
       map_option (\<lambda>x. if P x then relocated oldpath newpath x else x) (map_of (docs (db c)) j)" for j
  proof (cases "map_of (docs (db c)) j")
    case None
    then show ?thesis using fr(2) [of j] by simp
  next
    case (Some x)
    then show ?thesis using fr(2) [of j] kc(3) [of j] by simp
  qed
  show ?thesis
  proof (cases "children = []")
    case True
    then have res: "bulkUpdateDocsPath c olddoc newpath sched = (c, None)"
      using find by (simp add: bulkUpdateDocsPath_def oldpath_def [symmetric])
    have "map_of (docs (db c)) j =
       map_option (\<lambda>x. if P x then relocated oldpath newpath x else x) (map_of (docs (db c)) j)" for j
      using look [of j] fo True by simp
    with res assms(2) show ?thesis
      unfolding P_def oldpath_def by auto
  next
    case False
    then have res: "bulkUpdateDocsPath c olddoc newpath sched = (c\<lparr>db := d'\<rparr>, None)"
      using find fo fr(1) by (simp add: bulkUpdateDocsPath_def oldpath_def [symmetric])
    with look frame assms(2) show ?thesis
      unfolding P_def oldpath_def by auto
  qed
qed

lemma bulkUpdateDocsPath_None:
  assumes "keyed (db c)" "bulkUpdateDocsPath c olddoc newpath sched = (c', None)"
  shows "online (db c)" "fs c' = fs c" "online (db c')"
    "map fst (docs (db c')) = map fst (docs (db c))"
    "map_of (docs (db c')) j =
       map_option (\<lambda>x. if HasPrefix (Path x) (Clean (Path olddoc) @ ''/'')
                        then relocated (Clean (Path olddoc)) newpath x else x)
         (map_of (docs (db c)) j)"
proof -
  show on: "online (db c)"
    using assms(2) bulkUpdateDocsPath_offline [of c olddoc newpath sched] by auto
  from bulkUpdateDocsPath_fresh [OF assms(1) on, of olddoc newpath sched] assms(2)
  show "fs c' = fs c" "online (db c')"
    "map fst (docs (db c')) = map fst (docs (db c))"
    "map_of (docs (db c')) j =
       map_option (\<lambda>x. if HasPrefix (Path x) (Clean (Path olddoc) @ ''/'')
                        then relocated (Clean (Path olddoc)) newpath x else x)
         (map_of (docs (db c)) j)"
    by auto
qed

lemma Join_relocate:
  assumes "IsAbs p" "Clean p = p" "p = a @ CHR ''/'' # r" "a \<noteq> []"
    "IsAbs np" "Clean np = np" "np \<noteq> ''/''"
  shows "Join np r = np @ CHR ''/'' # r"
proof -
  obtain ds where ds: "\<forall>c\<in>set ds. normalElem c" "p = absPath ds"
    using canonical_absPath [OF assms(1,2)] by blast
  obtain ns where ns: "\<forall>c\<in>set ns. normalElem c" "np = absPath ns"
    using canonical_absPath [OF assms(5,6)] by blast
  have ns_ne: "ns \<noteq> []" using ns(2) assms(7) by auto
  have "elems p = elems a @ elems r" using assms(3) by (simp add: elems_append_slash)
  then have e: "[] # (if ds = [] then [[]] else ds) = elems a @ elems r"
    using ds by (simp add: elems_absPath)
  have ds_ne: "ds \<noteq> []"
  proof
    assume "ds = []"
    then have "p = ''/''" using ds(2) by simp
    with assms(3,4) show False by (cases a) auto
  qed
  obtain x xs where a: "elems a = x # xs" by (cases "elems a") auto
  have "ds = xs @ elems r" using e a ds_ne by simp
  then have nr: "\<forall>c\<in>set (elems r). normalElem c" using ds(1) by auto
  have "Join np r = Join (absPath ns) (joinSlash (elems r))"
    by (simp add: ns(2) joinSlash_elems)
  also have "\<dots> = absPath (ns @ elems r)" by (rule Join_absPath [OF ns(1) nr])
  also have "\<dots> = absPath ns @ CHR ''/'' # joinSlash (elems r)"
    by (rule absPath_append [OF ns_ne]) simp
  finally show ?thesis by (simp add: ns(2) joinSlash_elems)
qed

section \<open>The steps of a call of \<^verbatim>\<open>ModifyDirectoryMetadata\<close>\<close>

lemma Modify_success:
  assumes "ModifyDirectoryMetadata c now olddoc data sched = (c', Inr newdoc)"
  obtains folderID pth0 par fresh fs1 c1 db2 name pth mdate tags where
    "resolved c olddoc data = Inr (folderID, pth0, par)"
    "name = (if attrName data \<noteq> [] then attrName data else Name olddoc)"
    "pth = (if attrName data \<noteq> [] then Join (Dir pth0) (attrName data) else pth0)"
    "tags = (case attrTags data of None \<Rightarrow> Tags olddoc | Some ts \<Rightarrow> appendTags (Tags olddoc) ts)"
    "mdate = (case attrUpdatedAt data of None \<Rightarrow> UpdatedAt olddoc | Some t \<Rightarrow> t)"
    "\<not> mdate < CreatedAt olddoc"
    "NewDirDoc now name folderID tags par = Inr fresh"
    "(if pth \<noteq> Path olddoc then safeRenameDirectory (Path olddoc) pth (fs c) else Inr (fs c)) = Inr fs1"
    "bulkUpdateDocsPath (c\<lparr>fs := fs1\<rparr>) olddoc pth sched = (c1, None)"
    "UpdateDoc (db c1) (fresh\<lparr>ObjID := ObjID olddoc, ObjRev := ObjRev olddoc,
        CreatedAt := CreatedAt olddoc, UpdatedAt := mdate, Path := pth,
        files := files olddoc, dirs := dirs olddoc\<rparr>) = Inr (db2, newdoc)"
    "c' = c1\<lparr>db := db2\<rparr>"
proof -
  obtain folderID pth0 par where r: "resolved c olddoc data = Inr (folderID, pth0, par)"
    using assms unfolding ModifyDirectoryMetadata_def resolved_def [symmetric]
    by (cases "resolved c olddoc data") auto
  show ?thesis
    using assms that [OF r refl refl refl refl]
    unfolding ModifyDirectoryMetadata_def resolved_def [symmetric] r
    by (auto simp add: Let_def split: if_splits sum.splits prod.splits option.splits)
qed

lemma Modify_forbidden:
  assumes "ModifyDirectoryMetadata c now olddoc data sched = (c', Inl ErrForbiddenDocMove)"
  shows "c' = c"
proof (cases "resolved c olddoc data")
  case (Inl err)
  with assms show ?thesis
    unfolding ModifyDirectoryMetadata_def resolved_def [symmetric] by simp
next
  case (Inr t)
  obtain folderID pth0 par where t: "t = (folderID, pth0, par)"
    by (cases t)
  show ?thesis
    using assms unfolding ModifyDirectoryMetadata_def resolved_def [symmetric] Inr t
    by (auto simp add: Let_def split: if_splits sum.splits prod.splits option.splits
        dest: NewDirDoc_Inl bulkUpdateDocsPath_err UpdateDoc_Inl)
qed

section \<open>Facts about consistent contexts\<close>








lemma folderPath_doc:
  "F \<noteq> RootFolderID \<Longrightarrow> map_of (docs d) F = Some g \<Longrightarrow> Type g = DirType \<Longrightarrow>
     folderPath d F = Some (Path g)"
  by (simp add: folderPath_def)

lemma folderPath_root [simp]: "folderPath d RootFolderID = Some ''/''"
  by (simp add: folderPath_def)










lemma not_under:
  assumes "xs \<noteq> []" "es \<noteq> []" "\<not> HasPrefix (absPath cs) (absPath xs @ ''/'')"
  shows "cs \<noteq> xs @ es"
  using prefix_absPath_append [OF assms(1,2)] assms(3) by auto

section \<open>A move keeps the context consistent\<close>


section \<open>The steps of the two operations in a consistent context\<close>

lemma stored_fields [simp]:
  "Type (stored x) = Type x" "ObjID (stored x) = ObjID x" "ObjRev (stored x) = ObjRev x"
  "Name (stored x) = Name x" "FolderID (stored x) = FolderID x" "Path (stored x) = Path x"
  "CreatedAt (stored x) = CreatedAt x" "UpdatedAt (stored x) = UpdatedAt x" "Tags (stored x) = Tags x"
  by (simp_all add: stored_def)



















section \<open>The fan-out within a move\<close>

lemma Clean_nonempty: "Clean p \<noteq> []"
  by (simp add: Clean_def Let_def)

lemma relocated_literal:
  assumes "HasPrefix (Path x) (oldpath @ ''/'')" "oldpath \<noteq> []"
    "IsAbs (Path x)" "Clean (Path x) = Path x"
    "IsAbs newpath" "Clean newpath = newpath" "newpath \<noteq> ''/''"
  shows "relocated oldpath newpath x =
    x\<lparr>Path := newpath @ ''/'' @ drop (length oldpath + 1) (Path x), ObjRev := nextRev (ObjRev x)\<rparr>"
proof -
  have p: "Path x = oldpath @ CHR ''/'' # drop (length oldpath + 1) (Path x)"
    using assms(1) by (auto simp: HasPrefix_def prefix_def)
  have "Join newpath (drop (length oldpath + 1) (Path x))
      = newpath @ CHR ''/'' # drop (length oldpath + 1) (Path x)"
    by (rule Join_relocate [OF assms(3,4) p assms(2,5,6,7)])
  then show ?thesis by (simp add: relocated_def)
qed

lemma runUnits_length: "length (snd (runUnits d oldpath newpath units)) = length units"
proof (induction units arbitrary: d)
  case Nil
  then show ?case by simp
next
  case (Cons u units)
  obtain n child where u: "u = (n, child)" by (cases u)
  obtain d1 e where f: "fixChild d oldpath newpath child = (d1, e)"
    by (cases "fixChild d oldpath newpath child")
  obtain d2 sent where r: "runUnits d1 oldpath newpath units = (d2, sent)"
    by (cases "runUnits d1 oldpath newpath units")
  from Cons.IH [of d1] u f r show ?case by simp
qed

lemma fanout_received:
  "length (snd (runUnits d oldpath newpath (inOrder (writesAt sched) (enumerate 0 children))))
     = length children"
  by (simp add: runUnits_length inOrder_def)

lemma receive_filter:
  "receive arrived err =
     (case filter (\<lambda>e. e \<noteq> None) arrived of [] \<Rightarrow> err | e # es \<Rightarrow> last (e # es))"
  by (induction arrived err rule: receive.induct) (auto split: list.splits)

lemma bulkUpdateDocsPath_lookup:
  assumes "keyed (db c)" "online (db c)"
  shows "snd (bulkUpdateDocsPath c olddoc newpath sched) = None"
    and "map_of (docs (db (fst (bulkUpdateDocsPath c olddoc newpath sched)))) j =
       map_option (\<lambda>x. if HasPrefix (Path x) (Clean (Path olddoc) @ ''/'')
                        then relocated (Clean (Path olddoc)) newpath x else x)
         (map_of (docs (db c)) j)"
  using bulkUpdateDocsPath_fresh [OF assms, of olddoc newpath sched] by auto

lemma Modify_descendants:
  assumes "ModifyDirectoryMetadata c now olddoc data sched = (c', Inr newdoc)" "keyed (db c)"
    "map_of (docs (db c)) i = Some x" "i \<noteq> ObjID olddoc"
  shows "map_of (docs (db c')) i =
    Some (if HasPrefix (Path x) (Clean (Path olddoc) @ ''/'')
          then relocated (Clean (Path olddoc)) (Path newdoc) x else x)"
  using assms(1)
proof (rule Modify_success)
  fix folderID pth0 par fresh fs1 c1 db2 name pth mdate tags
  assume bulk: "bulkUpdateDocsPath (c\<lparr>fs := fs1\<rparr>) olddoc pth sched = (c1, None)"
    and upd: "UpdateDoc (db c1) (fresh\<lparr>ObjID := ObjID olddoc, ObjRev := ObjRev olddoc,
        CreatedAt := CreatedAt olddoc, UpdatedAt := mdate, Path := pth,
        files := files olddoc, dirs := dirs olddoc\<rparr>) = Inr (db2, newdoc)"
    and c': "c' = c1\<lparr>db := db2\<rparr>"
  have pth: "Path newdoc = pth"
    using UpdateDoc_Inr(3) [OF upd] by simp
  have k: "keyed (db (c\<lparr>fs := fs1\<rparr>))" using assms(2) by simp
  note b = bulkUpdateDocsPath_None [OF k bulk]
  have "map_of (docs (db c')) i = map_of (docs (db c1)) i"
    using UpdateDoc_lookup [OF upd, of i] assms(4) c' by simp
  then show ?thesis
    using b(5) [of i] assms(3) pth by simp
qed


section \<open>The claims\<close>

subsection \<open>C6: the errors of \<^verbatim>\<open>GetDirDoc\<close>\<close>

text \<open>
  C6, as the code has it. For the root identifier \<^verbatim>\<open>GetDirDoc\<close> returns the synthetic root.
  For any other identifier, with the store reachable: when no document has the identifier
  the error is \<^verbatim>\<open>ErrParentDoesNotExist\<close> (the spec's ParentMissing), and when the stored
  document's type is not "directory" the error is \<^verbatim>\<open>os.ErrNotExist\<close> (the spec's NotFound,
  the error \<^verbatim>\<open>GetDirDocFromPath\<close> returns when nothing matches).
\<close>

theorem GetDirDoc_errors:
  "GetDirDoc c RootFolderID w = Inr getRootDirDoc \<and>
   (fileID \<noteq> RootFolderID \<and> online (db c) \<and> map_of (docs (db c)) fileID = None
      \<longrightarrow> GetDirDoc c fileID w = Inl ErrParentDoesNotExist) \<and>
   (fileID \<noteq> RootFolderID \<and> online (db c) \<and> map_of (docs (db c)) fileID = Some doc \<and>
    Type doc \<noteq> DirType
      \<longrightarrow> GetDirDoc c fileID w = Inl ErrNotExist)"
  by (simp add: GetDirDoc_def GetDoc_def decode_def)

theorem GetDirDoc_errors_witness:
  "GetDirDoc exCtx ''d9'' True = Inl ErrParentDoesNotExist \<and>
   GetDirDoc exCtx ''f1'' True = Inl ErrNotExist"
  using GetDirDoc_errors [of exCtx True "''d9''"]
        GetDirDoc_errors [of exCtx True "''f1''" "snd (exDocs ! 2)"]
  by (simp add: ex_defs)

text \<open>
  C6 as stated fails: looking up an identifier that no document has does not give the
  error NotFound (\<^verbatim>\<open>os.ErrNotExist\<close>) but \<^verbatim>\<open>ErrParentDoesNotExist\<close>, and looking up a file's
  identifier gives \<^verbatim>\<open>os.ErrNotExist\<close>, the error the claim reserves for a missing document.
\<close>

theorem GetDirDoc_errors_counterexample:
  "GetDirDoc exCtx ''d9'' False = Inl ErrParentDoesNotExist \<and>
   GetDirDoc exCtx ''d9'' False \<noteq> Inl ErrNotExist \<and>
   GetDirDoc exCtx ''f1'' False = Inl ErrNotExist"
  by (simp add: GetDirDoc_def GetDoc_def decode_def ex_defs)

subsection \<open>C8: the root is returned without its children\<close>

text \<open>
  C8. For the root identifier \<^verbatim>\<open>GetDirDoc\<close> returns the synthetic root whatever the flag
  \<^verbatim>\<open>withChildren\<close> and whatever the store holds; the document returned has no children
  loaded.
\<close>

theorem GetDirDoc_root:
  "GetDirDoc c RootFolderID withChildren = Inr getRootDirDoc \<and>
   files getRootDirDoc = [] \<and> dirs getRootDirDoc = []"
  by (simp add: GetDirDoc_def getRootDirDoc_def)

subsection \<open>C9: what a modification keeps\<close>

text \<open>
  C9. After a successful \<^verbatim>\<open>ModifyDirectoryMetadata\<close> the new document has the identifier
  and the creation time of the old one, its type is "directory", it carries the children
  the old one had loaded, and it is the document the store now holds under that identifier.
\<close>

theorem Modify_keeps_identity:
  "ModifyDirectoryMetadata c now olddoc data sched = (c', Inr newdoc) \<Longrightarrow>
     ObjID newdoc = ObjID olddoc \<and> CreatedAt newdoc = CreatedAt olddoc \<and>
     Type newdoc = DirType \<and> files newdoc = files olddoc \<and> dirs newdoc = dirs olddoc \<and>
     map_of (docs (db c')) (ObjID olddoc) = Some (stored newdoc)"
proof -
  assume a: "ModifyDirectoryMetadata c now olddoc data sched = (c', Inr newdoc)"
  from a show ?thesis
  proof (rule Modify_success)
    fix folderID pth0 par fresh fs1 c1 db2 name pth mdate tags
    assume n: "NewDirDoc now name folderID tags par = Inr fresh"
      and u: "UpdateDoc (db c1) (fresh\<lparr>ObjID := ObjID olddoc, ObjRev := ObjRev olddoc,
        CreatedAt := CreatedAt olddoc, UpdatedAt := mdate, Path := pth,
        files := files olddoc, dirs := dirs olddoc\<rparr>) = Inr (db2, newdoc)"
      and c': "c' = c1\<lparr>db := db2\<rparr>"
    show ?thesis
      using UpdateDoc_Inr(3) [OF u] UpdateDoc_lookup [OF u, of "ObjID olddoc"]
        NewDirDoc_Inr(4) [OF n] c'
      by simp
  qed
qed

theorem Modify_keeps_identity_witness:
  "\<exists>c' newdoc.
     ModifyDirectoryMetadata exCtx 9 exDocsDir (noChange\<lparr>attrName := ''archive''\<rparr>) exListOrder = (c', Inr newdoc) \<and>
     ObjID newdoc = ObjID exDocsDir \<and> CreatedAt newdoc = CreatedAt exDocsDir \<and>
     map_of (docs (db c')) (ObjID exDocsDir) = Some (stored newdoc)"
proof -
  obtain c' newdoc where
    e: "ModifyDirectoryMetadata exCtx 9 exDocsDir (noChange\<lparr>attrName := ''archive''\<rparr>) exListOrder = (c', Inr newdoc)"
    by (simp add: run_defs ex_defs)
  from Modify_keeps_identity [OF e] e show ?thesis by blast
qed

subsection \<open>C10: the empty name means no new name\<close>

text \<open>
  C10. In a successful \<^verbatim>\<open>ModifyDirectoryMetadata\<close> the name of the new document is never
  empty; when the descriptor's name is the empty string the name is the old one, otherwise
  it is the descriptor's. The modification time is the old one when the descriptor has
  none.
\<close>

theorem Modify_empty_name:
  "ModifyDirectoryMetadata c now olddoc data sched = (c', Inr newdoc) \<Longrightarrow>
     Name newdoc \<noteq> [] \<and>
     Name newdoc = (if attrName data = [] then Name olddoc else attrName data) \<and>
     UpdatedAt newdoc = (case attrUpdatedAt data of None \<Rightarrow> UpdatedAt olddoc | Some t \<Rightarrow> t)"
proof -
  assume a: "ModifyDirectoryMetadata c now olddoc data sched = (c', Inr newdoc)"
  from a show ?thesis
  proof (rule Modify_success)
    fix folderID pth0 par fresh fs1 c1 db2 name pth mdate tags
    assume n: "NewDirDoc now name folderID tags par = Inr fresh"
      and name: "name = (if attrName data \<noteq> [] then attrName data else Name olddoc)"
      and mdate: "mdate = (case attrUpdatedAt data of None \<Rightarrow> UpdatedAt olddoc | Some t \<Rightarrow> t)"
      and u: "UpdateDoc (db c1) (fresh\<lparr>ObjID := ObjID olddoc, ObjRev := ObjRev olddoc,
        CreatedAt := CreatedAt olddoc, UpdatedAt := mdate, Path := pth,
        files := files olddoc, dirs := dirs olddoc\<rparr>) = Inr (db2, newdoc)"
    show ?thesis
      using UpdateDoc_Inr(3) [OF u] NewDirDoc_Inr(1,3) [OF n] name mdate
      by auto
  qed
qed

theorem Modify_empty_name_witness:
  "\<exists>c' newdoc.
     ModifyDirectoryMetadata exCtx 9 exDocsDir (noChange\<lparr>attrTags := Some [''work'']\<rparr>) exListOrder = (c', Inr newdoc) \<and>
     attrName (noChange\<lparr>attrTags := Some [''work'']\<rparr>) = [] \<and> Name newdoc = ''docs''"
proof -
  obtain c' newdoc where
    e: "ModifyDirectoryMetadata exCtx 9 exDocsDir (noChange\<lparr>attrTags := Some [''work'']\<rparr>) exListOrder = (c', Inr newdoc)"
    by (simp add: run_defs ex_defs)
  from Modify_empty_name [OF e] e show ?thesis
    by (auto simp: ex_defs decode_def)
qed

subsection \<open>C2: a move into the directory's own subtree\<close>

text \<open>
  C2, as the code has it. For cleaned absolute paths, \<^verbatim>\<open>safeRenameDirectory\<close> fails with
  \<^verbatim>\<open>ErrForbiddenDocMove\<close> when the new path lies under the old path followed by a slash;
  and whenever \<^verbatim>\<open>ModifyDirectoryMetadata\<close> fails with \<^verbatim>\<open>ErrForbiddenDocMove\<close>, the context
  is the one before the call: nothing was renamed and no document was written.
\<close>

theorem safeRename_forbidden:
  "(IsAbs oldPath \<and> IsAbs newPath \<and> Clean oldPath = oldPath \<and> Clean newPath = newPath \<and>
    HasPrefix newPath (oldPath @ ''/'')
      \<longrightarrow> safeRenameDirectory oldPath newPath f = Inl ErrForbiddenDocMove) \<and>
   (ModifyDirectoryMetadata c now olddoc data sched = (c', Inl ErrForbiddenDocMove) \<longrightarrow> c' = c)"
  using Modify_forbidden [of c now olddoc data sched c']
  by (simp add: safeRenameDirectory_def Let_def)

theorem safeRename_forbidden_witness:
  "safeRenameDirectory ''/docs'' ''/docs/photos/docs'' (fs exCtx) = Inl ErrForbiddenDocMove \<and>
   ModifyDirectoryMetadata exCtx 9 exDocsDir (noChange\<lparr>attrFolderID := Some ''d2''\<rparr>) exListOrder
     = (exCtx, Inl ErrForbiddenDocMove)"
proof -
  have e: "ModifyDirectoryMetadata exCtx 9 exDocsDir (noChange\<lparr>attrFolderID := Some ''d2''\<rparr>) exListOrder
     = (exCtx, Inl ErrForbiddenDocMove)"
    by code_simp
  have p: "IsAbs ''/docs'' \<and> IsAbs ''/docs/photos/docs'' \<and> Clean ''/docs'' = ''/docs'' \<and>
    Clean ''/docs/photos/docs'' = ''/docs/photos/docs'' \<and>
    HasPrefix ''/docs/photos/docs'' (''/docs'' @ ''/'')"
    by (simp add: IsAbs_def Clean_def HasPrefix_def)
  from safeRename_forbidden [of "''/docs''" "''/docs/photos/docs''" "fs exCtx" exCtx 9 exDocsDir
      "noChange\<lparr>attrFolderID := Some ''d2''\<rparr>" exListOrder exCtx] p e
  show ?thesis by simp
qed

text \<open>
  C2 as stated fails where the new path is the old path itself: the prefix test does not
  hold, and the call fails with \<^verbatim>\<open>os.ErrExist\<close> because the entry exists.
\<close>

theorem safeRename_forbidden_counterexample:
  "IsAbs ''/docs'' \<and> Clean ''/docs'' = ''/docs'' \<and>
   safeRenameDirectory ''/docs'' ''/docs'' (fs exCtx) = Inl ErrExist \<and>
   safeRenameDirectory ''/docs'' ''/docs'' (fs exCtx) \<noteq> Inl ErrForbiddenDocMove"
  by (simp add: safeRenameDirectory_def IsAbs_def Clean_def HasPrefix_def Stat_def ex_defs)

subsection \<open>C7: creating a directory\<close>

text \<open>
  C7. When the path that \<^verbatim>\<open>getFilePath\<close> resolves exists in the physical store,
  \<^verbatim>\<open>CreateDirectory\<close> fails with \<^verbatim>\<open>os.ErrExist\<close> and the context (so the document store) is
  unchanged. When the directory was made and the document could not be created,
  \<^verbatim>\<open>CreateDirectory\<close> returns that error after removing the directory again: the path is
  not in the physical store it leaves, and the document store is unchanged.
\<close>

theorem CreateDirectory_errors:
  "(getFilePath c (Name doc) (FolderID doc) = Inr (pth, par) \<and> \<not> broken (fs c) \<and>
    pth \<in> set (entries (fs c))
      \<longrightarrow> CreateDirectory c doc = (c, Inl ErrExist)) \<and>
   (getFilePath c (Name doc) (FolderID doc) = Inr (pth, par) \<and> Mkdir (fs c) pth = Inr fs1 \<and>
    CreateDoc (db c) (doc\<lparr>Path := pth\<rparr>) = Inl err
      \<longrightarrow> (\<exists>fs2. Remove fs1 pth = Inr fs2 \<and> pth \<notin> set (entries fs2) \<and>
                CreateDirectory c doc = (c\<lparr>fs := fs2\<rparr>, Inl err)))"
  by (auto simp: CreateDirectory_def Mkdir_def Remove_def split: if_splits)

theorem CreateDirectory_errors_witness:
  "CreateDirectory exCtx (exDocsDir\<lparr>Name := ''photos'', FolderID := ''d1''\<rparr>) = (exCtx, Inl ErrExist) \<and>
   (\<exists>fs2. ''/music'' \<notin> set (entries fs2) \<and>
          CreateDirectory exOffline (exDocsDir\<lparr>Name := ''music''\<rparr>)
            = (exOffline\<lparr>fs := fs2\<rparr>, Inl CouchUnavailable))"
proof -
  let ?d1 = "exDocsDir\<lparr>Name := ''photos'', FolderID := ''d1''\<rparr>"
  let ?d2 = "exDocsDir\<lparr>Name := ''music''\<rparr>"
  have g1: "getFilePath exCtx (Name ?d1) (FolderID ?d1) = Inr (''/docs/photos'', exDocsDir)"
    by (simp add: run_defs ex_defs)
  have m1: "\<not> broken (fs exCtx) \<and> ''/docs/photos'' \<in> set (entries (fs exCtx))"
    by (simp add: ex_defs)
  have g2: "getFilePath exOffline (Name ?d2) (FolderID ?d2) = Inr (''/music'', getRootDirDoc)"
    by (simp add: run_defs ex_defs)
  have m2: "Mkdir (fs exOffline) ''/music'' = Inr ((fs exOffline)\<lparr>entries := entries (fs exOffline) @ [''/music'']\<rparr>)"
    by (simp add: run_defs ex_defs)
  have k2: "CreateDoc (db exOffline) (?d2\<lparr>Path := ''/music''\<rparr>) = Inl CouchUnavailable"
    by (simp add: run_defs ex_defs)
  from CreateDirectory_errors [of exCtx ?d1 "''/docs/photos''" exDocsDir]
    CreateDirectory_errors [of exOffline ?d2 "''/music''" getRootDirDoc
      "(fs exOffline)\<lparr>entries := entries (fs exOffline) @ [''/music'']\<rparr>" CouchUnavailable]
    g1 m1 g2 m2 k2
  show ?thesis by blast
qed

subsection \<open>C3: the fix-up of the documents below a moved directory\<close>

text \<open>
  C3. In a store keyed by identifier that can be reached, \<^verbatim>\<open>bulkUpdateDocsPath\<close> succeeds
  under every schedule, and it leaves every document whose path begins with the old path and
  a slash stored with the new path, a slash and the rest after the prefix, under its next
  revision, and every other document as it was; so does a successful
  \<^verbatim>\<open>ModifyDirectoryMetadata\<close> for every document other than the directory itself. Here the
  paths are clean and absolute and the new path is not the root, as the paths of the store
  are. For the units on a query result that may be out of date (documents with distinct
  identifiers), under every schedule: a queried document that has the prefix and the stored
  revision is stored relocated in this way; one whose path does not begin with the prefix
  is refused with an error, the fan-out fails, and the stored document is not touched; and
  one whose revision is no longer the stored one is refused with a conflict, the fan-out
  fails, and the stored document is not touched.
\<close>

theorem bulkUpdateDocsPath_relocates:
  "(keyed (db c) \<and> online (db c) \<and> map_of (docs (db c)) i = Some x \<and>
    HasPrefix (Path x) (Clean (Path olddoc) @ ''/'') \<and> IsAbs (Path x) \<and> Clean (Path x) = Path x \<and>
    IsAbs newpath \<and> Clean newpath = newpath \<and> newpath \<noteq> ''/''
      \<longrightarrow> snd (bulkUpdateDocsPath c olddoc newpath sched) = None \<and>
          map_of (docs (db (fst (bulkUpdateDocsPath c olddoc newpath sched)))) i =
            Some (x\<lparr>Path := newpath @ ''/'' @ drop (length (Clean (Path olddoc)) + 1) (Path x),
                    ObjRev := nextRev (ObjRev x)\<rparr>)) \<and>
   (keyed (db c) \<and> online (db c) \<and> map_of (docs (db c)) i = Some x \<and>
    \<not> HasPrefix (Path x) (Clean (Path olddoc) @ ''/'')
      \<longrightarrow> snd (bulkUpdateDocsPath c olddoc newpath sched) = None \<and>
          map_of (docs (db (fst (bulkUpdateDocsPath c olddoc newpath sched)))) i = Some x) \<and>
   (ModifyDirectoryMetadata c now olddoc data sched = (c', Inr newdoc) \<and> keyed (db c) \<and>
    map_of (docs (db c)) i = Some x \<and> i \<noteq> ObjID olddoc \<and>
    HasPrefix (Path x) (Clean (Path olddoc) @ ''/'') \<and> IsAbs (Path x) \<and> Clean (Path x) = Path x \<and>
    IsAbs (Path newdoc) \<and> Clean (Path newdoc) = Path newdoc \<and> Path newdoc \<noteq> ''/''
      \<longrightarrow> map_of (docs (db c')) i =
            Some (x\<lparr>Path := Path newdoc @ ''/'' @ drop (length (Clean (Path olddoc)) + 1) (Path x),
                    ObjRev := nextRev (ObjRev x)\<rparr>)) \<and>
   (distinct (map ObjID children) \<and> child \<in> set children \<and> unitOK d oldpath child \<and>
    oldpath \<noteq> [] \<and> IsAbs (Path child) \<and> Clean (Path child) = Path child \<and>
    IsAbs newpath \<and> Clean newpath = newpath \<and> newpath \<noteq> ''/''
      \<longrightarrow> map_of (docs (fst (fanout d oldpath newpath children sched))) (ObjID child) =
            Some (child\<lparr>Path := newpath @ ''/'' @ drop (length oldpath + 1) (Path child),
                        ObjRev := nextRev (ObjRev child)\<rparr>)) \<and>
   (distinct (map ObjID children) \<and> child \<in> set children \<and>
    \<not> HasPrefix (Path child) (oldpath @ ''/'')
      \<longrightarrow> snd (fixChild d oldpath newpath child) = Some (Errorf ''Child has wrong base directory'') \<and>
          snd (fanout d oldpath newpath children sched) \<noteq> None \<and>
          map_of (docs (fst (fanout d oldpath newpath children sched))) (ObjID child) =
            map_of (docs d) (ObjID child)) \<and>
   (distinct (map ObjID children) \<and> child \<in> set children \<and>
    HasPrefix (Path child) (oldpath @ ''/'') \<and> online d \<and>
    map_of (docs d) (ObjID child) = Some cur \<and> ObjRev cur \<noteq> ObjRev child
      \<longrightarrow> snd (fixChild d oldpath newpath child) = Some CouchConflict \<and>
          snd (fanout d oldpath newpath children sched) \<noteq> None \<and>
          map_of (docs (fst (fanout d oldpath newpath children sched))) (ObjID child) = Some cur)"
proof (intro conjI impI)
  assume a: "keyed (db c) \<and> online (db c) \<and> map_of (docs (db c)) i = Some x \<and>
    HasPrefix (Path x) (Clean (Path olddoc) @ ''/'') \<and> IsAbs (Path x) \<and> Clean (Path x) = Path x \<and>
    IsAbs newpath \<and> Clean newpath = newpath \<and> newpath \<noteq> ''/''"
  then have k: "keyed (db c)" and on: "online (db c)" by simp_all
  show "snd (bulkUpdateDocsPath c olddoc newpath sched) = None"
    by (rule bulkUpdateDocsPath_lookup(1) [OF k on])
  have "relocated (Clean (Path olddoc)) newpath x =
      x\<lparr>Path := newpath @ ''/'' @ drop (length (Clean (Path olddoc)) + 1) (Path x),
        ObjRev := nextRev (ObjRev x)\<rparr>"
    using a by (intro relocated_literal Clean_nonempty) simp_all
  then show "map_of (docs (db (fst (bulkUpdateDocsPath c olddoc newpath sched)))) i =
      Some (x\<lparr>Path := newpath @ ''/'' @ drop (length (Clean (Path olddoc)) + 1) (Path x),
              ObjRev := nextRev (ObjRev x)\<rparr>)"
    using bulkUpdateDocsPath_lookup(2) [OF k on, of olddoc newpath sched i] a by simp
next
  assume a: "keyed (db c) \<and> online (db c) \<and> map_of (docs (db c)) i = Some x \<and>
    \<not> HasPrefix (Path x) (Clean (Path olddoc) @ ''/'')"
  then have k: "keyed (db c)" and on: "online (db c)" by simp_all
  show "snd (bulkUpdateDocsPath c olddoc newpath sched) = None"
    by (rule bulkUpdateDocsPath_lookup(1) [OF k on])
  show "map_of (docs (db (fst (bulkUpdateDocsPath c olddoc newpath sched)))) i = Some x"
    using bulkUpdateDocsPath_lookup(2) [OF k on, of olddoc newpath sched i] a by simp
next
  assume a: "ModifyDirectoryMetadata c now olddoc data sched = (c', Inr newdoc) \<and> keyed (db c) \<and>
    map_of (docs (db c)) i = Some x \<and> i \<noteq> ObjID olddoc \<and>
    HasPrefix (Path x) (Clean (Path olddoc) @ ''/'') \<and> IsAbs (Path x) \<and> Clean (Path x) = Path x \<and>
    IsAbs (Path newdoc) \<and> Clean (Path newdoc) = Path newdoc \<and> Path newdoc \<noteq> ''/''"
  have "relocated (Clean (Path olddoc)) (Path newdoc) x =
      x\<lparr>Path := Path newdoc @ ''/'' @ drop (length (Clean (Path olddoc)) + 1) (Path x),
        ObjRev := nextRev (ObjRev x)\<rparr>"
    using a by (intro relocated_literal Clean_nonempty) simp_all
  then show "map_of (docs (db c')) i =
      Some (x\<lparr>Path := Path newdoc @ ''/'' @ drop (length (Clean (Path olddoc)) + 1) (Path x),
              ObjRev := nextRev (ObjRev x)\<rparr>)"
    using Modify_descendants [of c now olddoc data sched c' newdoc i x] a by simp
next
  assume a: "distinct (map ObjID children) \<and> child \<in> set children \<and> unitOK d oldpath child \<and>
    oldpath \<noteq> [] \<and> IsAbs (Path child) \<and> Clean (Path child) = Path child \<and>
    IsAbs newpath \<and> Clean newpath = newpath \<and> newpath \<noteq> ''/''"
  then have p: "HasPrefix (Path child) (oldpath @ ''/'')" by (simp add: unitOK_def)
  have "relocated oldpath newpath child =
      child\<lparr>Path := newpath @ ''/'' @ drop (length oldpath + 1) (Path child),
            ObjRev := nextRev (ObjRev child)\<rparr>"
    using a p by (intro relocated_literal) simp_all
  then show "map_of (docs (fst (fanout d oldpath newpath children sched))) (ObjID child) =
      Some (child\<lparr>Path := newpath @ ''/'' @ drop (length oldpath + 1) (Path child),
                  ObjRev := nextRev (ObjRev child)\<rparr>)"
    using fanout_child [of children child d oldpath newpath sched] a by simp
next
  assume a: "distinct (map ObjID children) \<and> child \<in> set children \<and>
    \<not> HasPrefix (Path child) (oldpath @ ''/'')"
  then have bad: "\<not> unitOK d oldpath child" by (simp add: unitOK_def)
  show "snd (fixChild d oldpath newpath child) = Some (Errorf ''Child has wrong base directory'')"
    using a by (simp add: fixChild_def)
  show "snd (fanout d oldpath newpath children sched) \<noteq> None"
    using fanout_sent(1) [of children d oldpath newpath sched] a bad by blast
  show "map_of (docs (fst (fanout d oldpath newpath children sched))) (ObjID child) =
      map_of (docs d) (ObjID child)"
    using fanout_child [of children child d oldpath newpath sched] a bad by simp
next
  assume a: "distinct (map ObjID children) \<and> child \<in> set children \<and>
    HasPrefix (Path child) (oldpath @ ''/'') \<and> online d \<and>
    map_of (docs d) (ObjID child) = Some cur \<and> ObjRev cur \<noteq> ObjRev child"
  then have bad: "\<not> unitOK d oldpath child" by (simp add: unitOK_def)
  show "snd (fixChild d oldpath newpath child) = Some CouchConflict"
    using a by (simp add: fixChild_def UpdateDoc_def)
  show "snd (fanout d oldpath newpath children sched) \<noteq> None"
    using fanout_sent(1) [of children d oldpath newpath sched] a bad by blast
  show "map_of (docs (fst (fanout d oldpath newpath children sched))) (ObjID child) = Some cur"
    using fanout_child [of children child d oldpath newpath sched] a bad by simp
qed

theorem bulkUpdateDocsPath_relocates_witness:
  "snd (bulkUpdateDocsPath exCtx exDocsDir ''/archive'' exLastFirst) = None \<and>
   map_of (docs (db (fst (bulkUpdateDocsPath exCtx exDocsDir ''/archive'' exLastFirst)))) ''d2'' =
     Some ((snd (exDocs ! 1))\<lparr>Path := ''/archive/photos'', ObjRev := ''++''\<rparr>) \<and>
   map_of (docs (db (fst (bulkUpdateDocsPath exCtx exDocsDir ''/archive'' exLastFirst)))) ''d1'' =
     Some (snd (exDocs ! 0)) \<and>
   (\<exists>c' newdoc.
      ModifyDirectoryMetadata exCtx 9 exDocsDir (noChange\<lparr>attrName := ''archive''\<rparr>) exLastFirst
        = (c', Inr newdoc) \<and>
      map_of (docs (db c')) ''d3'' = Some ((snd (exDocs ! 3))\<lparr>Path := ''/archive/music'', ObjRev := ''++''\<rparr>)) \<and>
   map_of (docs (fst (fanout (db exCtx) ''/docs'' ''/archive'' exSnapshot exLastFirst))) ''d3'' =
     Some ((snd (exDocs ! 3))\<lparr>Path := ''/archive/music'', ObjRev := ''++''\<rparr>) \<and>
   snd (fanout (db exCtx) ''/docs/photos'' ''/archive'' exSnapshot exLastFirst) \<noteq> None \<and>
   map_of (docs (fst (fanout (db exCtx) ''/docs/photos'' ''/archive'' exSnapshot exLastFirst))) ''d3'' =
     Some (snd (exDocs ! 3)) \<and>
   snd (fixChild (db exCtx) ''/docs'' ''/archive'' (exSnapshot ! 0)) = Some CouchConflict \<and>
   map_of (docs (fst (fanout (db exCtx) ''/docs'' ''/archive'' exSnapshot exLastFirst))) ''d2'' =
     Some (snd (exDocs ! 1))"
proof -
  let ?d2 = "snd (exDocs ! 1)" and ?d3 = "snd (exDocs ! 3)"
  have cl: "IsAbs ''/archive'' \<and> Clean ''/archive'' = ''/archive'' \<and> ''/archive'' \<noteq> ''/''"
    by (simp add: IsAbs_def Clean_def)
  have old: "Clean (Path exDocsDir) = ''/docs''"
    by (simp add: ex_defs decode_def IsAbs_def Clean_def)
  have h1: "keyed (db exCtx) \<and> online (db exCtx) \<and> map_of (docs (db exCtx)) ''d2'' = Some ?d2 \<and>
    HasPrefix (Path ?d2) (Clean (Path exDocsDir) @ ''/'') \<and> IsAbs (Path ?d2) \<and> Clean (Path ?d2) = Path ?d2"
    unfolding old by (simp add: ex_defs keyed_def HasPrefix_def IsAbs_def Clean_def)
  have h2: "keyed (db exCtx) \<and> online (db exCtx) \<and> map_of (docs (db exCtx)) ''d1'' = Some (snd (exDocs ! 0)) \<and>
    \<not> HasPrefix (Path (snd (exDocs ! 0))) (Clean (Path exDocsDir) @ ''/'')"
    unfolding old by (simp add: ex_defs keyed_def HasPrefix_def)
  obtain c' newdoc where
    e: "ModifyDirectoryMetadata exCtx 9 exDocsDir (noChange\<lparr>attrName := ''archive''\<rparr>) exLastFirst
        = (c', Inr newdoc)" "Path newdoc = ''/archive''"
    by (simp add: run_defs ex_defs)
  have h3: "keyed (db exCtx) \<and> map_of (docs (db exCtx)) ''d3'' = Some ?d3 \<and> ''d3'' \<noteq> ObjID exDocsDir \<and>
    HasPrefix (Path ?d3) (Clean (Path exDocsDir) @ ''/'') \<and> IsAbs (Path ?d3) \<and> Clean (Path ?d3) = Path ?d3"
    unfolding old by (simp add: ex_defs keyed_def HasPrefix_def IsAbs_def Clean_def decode_def)
  have h4: "distinct (map ObjID exSnapshot) \<and> exSnapshot ! 2 \<in> set exSnapshot \<and>
    unitOK (db exCtx) ''/docs'' (exSnapshot ! 2) \<and> ''/docs'' \<noteq> [] \<and>
    IsAbs (Path (exSnapshot ! 2)) \<and> Clean (Path (exSnapshot ! 2)) = Path (exSnapshot ! 2)"
    by (simp add: ex_defs unitOK_def HasPrefix_def IsAbs_def Clean_def)
  have h5: "distinct (map ObjID exSnapshot) \<and> exSnapshot ! 2 \<in> set exSnapshot \<and>
    \<not> HasPrefix (Path (exSnapshot ! 2)) (''/docs/photos'' @ ''/'')"
    by (simp add: ex_defs HasPrefix_def)
  have h6: "distinct (map ObjID exSnapshot) \<and> exSnapshot ! 0 \<in> set exSnapshot \<and>
    HasPrefix (Path (exSnapshot ! 0)) (''/docs'' @ ''/'') \<and> online (db exCtx) \<and>
    map_of (docs (db exCtx)) (ObjID (exSnapshot ! 0)) = Some ?d2 \<and> ObjRev ?d2 \<noteq> ObjRev (exSnapshot ! 0)"
    by (simp add: ex_defs HasPrefix_def)
  have r1: "snd (bulkUpdateDocsPath exCtx exDocsDir ''/archive'' exLastFirst) = None \<and>
      map_of (docs (db (fst (bulkUpdateDocsPath exCtx exDocsDir ''/archive'' exLastFirst)))) ''d2'' =
        Some (?d2\<lparr>Path := ''/archive'' @ ''/'' @ drop (length (Clean (Path exDocsDir)) + 1) (Path ?d2),
                  ObjRev := nextRev (ObjRev ?d2)\<rparr>)"
    using bulkUpdateDocsPath_relocates [where c = exCtx and i = "''d2''" and x = ?d2
        and olddoc = exDocsDir and newpath = "''/archive''" and sched = exLastFirst] h1 cl
    by blast
  have r2: "map_of (docs (db (fst (bulkUpdateDocsPath exCtx exDocsDir ''/archive'' exLastFirst)))) ''d1'' =
        Some (snd (exDocs ! 0))"
    using bulkUpdateDocsPath_relocates [where c = exCtx and i = "''d1''" and x = "snd (exDocs ! 0)"
        and olddoc = exDocsDir and newpath = "''/archive''" and sched = exLastFirst] h2
    by blast
  have r3: "map_of (docs (db c')) ''d3'' =
      Some (?d3\<lparr>Path := Path newdoc @ ''/'' @ drop (length (Clean (Path exDocsDir)) + 1) (Path ?d3),
                ObjRev := nextRev (ObjRev ?d3)\<rparr>)"
    using bulkUpdateDocsPath_relocates [where c = exCtx and i = "''d3''" and x = ?d3
        and olddoc = exDocsDir and now = 9 and data = "noChange\<lparr>attrName := ''archive''\<rparr>"
        and sched = exLastFirst and c' = c' and newdoc = newdoc] h3 e cl
    by simp
  have r4: "map_of (docs (fst (fanout (db exCtx) ''/docs'' ''/archive'' exSnapshot exLastFirst))) (ObjID (exSnapshot ! 2)) =
      Some ((exSnapshot ! 2)\<lparr>Path := ''/archive'' @ ''/'' @ drop (length ''/docs'' + 1) (Path (exSnapshot ! 2)),
                  ObjRev := nextRev (ObjRev (exSnapshot ! 2))\<rparr>)"
    using bulkUpdateDocsPath_relocates [where children = exSnapshot and child = "exSnapshot ! 2"
        and d = "db exCtx" and oldpath = "''/docs''" and newpath = "''/archive''" and sched = exLastFirst] h4 cl
    by blast
  have r5: "snd (fanout (db exCtx) ''/docs/photos'' ''/archive'' exSnapshot exLastFirst) \<noteq> None \<and>
      map_of (docs (fst (fanout (db exCtx) ''/docs/photos'' ''/archive'' exSnapshot exLastFirst))) (ObjID (exSnapshot ! 2)) =
        map_of (docs (db exCtx)) (ObjID (exSnapshot ! 2))"
    using bulkUpdateDocsPath_relocates [where children = exSnapshot and child = "exSnapshot ! 2"
        and d = "db exCtx" and oldpath = "''/docs/photos''" and newpath = "''/archive''" and sched = exLastFirst] h5
    by blast
  have r6: "snd (fixChild (db exCtx) ''/docs'' ''/archive'' (exSnapshot ! 0)) = Some CouchConflict \<and>
      map_of (docs (fst (fanout (db exCtx) ''/docs'' ''/archive'' exSnapshot exLastFirst))) (ObjID (exSnapshot ! 0)) =
        Some ?d2"
    using bulkUpdateDocsPath_relocates [where children = exSnapshot and child = "exSnapshot ! 0"
        and d = "db exCtx" and oldpath = "''/docs''" and newpath = "''/archive''" and sched = exLastFirst
        and cur = ?d2] h6
    by blast
  have v: "ObjID (exSnapshot ! 2) = ''d3''" "ObjID (exSnapshot ! 0) = ''d2''" "exSnapshot ! 2 = ?d3"
    "ObjID ?d3 = ''d3''"
    "map_of (docs (db exCtx)) ''d3'' = Some ?d3"
    "drop (length ''/docs'' + 1) (Path ?d3) = ''music''" "drop (length ''/docs'' + 1) (Path ?d2) = ''photos''"
    "nextRev (ObjRev ?d3) = ''++''" "nextRev (ObjRev ?d2) = ''++''"
    by (simp_all add: ex_defs nextRev_def)
  from r1 r2 r3 r4 r5 r6 e show ?thesis
    unfolding old v by (simp add: v)
qed

subsection \<open>C4: the errors of the fan-out\<close>

text \<open>
  C4, as the code has it. \<^verbatim>\<open>bulkUpdateDocsPath\<close> returns what the fan-out on the documents
  of its query leaves, and the loop receives one value for every unit it started. For
  queried documents with distinct identifiers and under every schedule: the result is no
  error exactly when no unit fails, and otherwise it is the error that one of the failing
  units sent, not an aggregate of the failures. Which one depends on the schedule: the
  error of every failing unit is the result under some schedule. The writes of the units
  that succeed stay: whatever the other units do, a queried document that has the prefix
  and the stored revision is relocated in the store the loop leaves, and the document of a
  unit that fails is as it was.
\<close>

theorem fanout_one_error:
  "(FindDocs (db c) (StartWithPath (Clean (Path olddoc) @ ''/'')) None = Inr children \<and>
    children \<noteq> []
      \<longrightarrow> bulkUpdateDocsPath c olddoc newpath sched =
            (c\<lparr>db := fst (fanout (db c) (Clean (Path olddoc)) newpath children sched)\<rparr>,
             snd (fanout (db c) (Clean (Path olddoc)) newpath children sched))) \<and>
   length (snd (runUnits d oldpath newpath (inOrder (writesAt sched) (enumerate 0 children))))
     = length children \<and>
   (distinct (map ObjID children) \<longrightarrow>
      (snd (fanout d oldpath newpath children sched) = None \<longleftrightarrow>
         (\<forall>child\<in>set children. unitOK d oldpath child))) \<and>
   (distinct (map ObjID children) \<and> snd (fanout d oldpath newpath children sched) = Some e \<longrightarrow>
      (\<exists>child\<in>set children.
         \<not> unitOK d oldpath child \<and> snd (fixChild d oldpath newpath child) = Some e)) \<and>
   (distinct (map ObjID children) \<and> child \<in> set children \<and>
    snd (fixChild d oldpath newpath child) = Some e' \<longrightarrow>
      (\<exists>s. snd (fanout d oldpath newpath children s) = Some e')) \<and>
   (distinct (map ObjID children) \<and> child \<in> set children \<longrightarrow>
      map_of (docs (fst (fanout d oldpath newpath children sched))) (ObjID child) =
        (if unitOK d oldpath child then Some (relocated oldpath newpath child)
         else map_of (docs d) (ObjID child)))"
proof -
  have "bulkUpdateDocsPath c olddoc newpath sched =
      (c\<lparr>db := fst (fanout (db c) (Clean (Path olddoc)) newpath children sched)\<rparr>,
       snd (fanout (db c) (Clean (Path olddoc)) newpath children sched))"
    if "FindDocs (db c) (StartWithPath (Clean (Path olddoc) @ ''/'')) None = Inr children"
      "children \<noteq> []"
    using that by (simp add: bulkUpdateDocsPath_def split: prod.splits)
  then show ?thesis
    using fanout_received [of d oldpath newpath sched children]
      fanout_sent(1) [of children d oldpath newpath sched]
      fanout_sent(2) [of children d oldpath newpath sched e]
      fanout_any_error [of children child d oldpath newpath e']
      fanout_child [of children child d oldpath newpath sched]
    by blast
qed

theorem fanout_one_error_witness:
  "snd (bulkUpdateDocsPath exCtx exDocsDir ''/archive'' exLastFirst) =
     snd (fanout (db exCtx) ''/docs'' ''/archive'' [snd (exDocs ! 1), snd (exDocs ! 3)] exLastFirst) \<and>
   snd (fanout (db exCtx) ''/docs'' ''/archive'' exSnapshot exListOrder) \<noteq> None \<and>
   snd (fanout (db exCtx) ''/docs'' ''/archive'' [exSnapshot ! 2] exListOrder) = None \<and>
   (\<exists>child\<in>set exSnapshot.
      \<not> unitOK (db exCtx) ''/docs'' child \<and>
      snd (fixChild (db exCtx) ''/docs'' ''/archive'' child) = Some CouchNotFound) \<and>
   (\<exists>s. snd (fanout (db exCtx) ''/docs'' ''/archive'' exSnapshot s) = Some CouchConflict) \<and>
   map_option Path (map_of (docs (fst (fanout (db exCtx) ''/docs'' ''/archive'' exSnapshot exListOrder))) ''d3'')
     = Some ''/archive/music'' \<and>
   map_of (docs (fst (fanout (db exCtx) ''/docs'' ''/archive'' exSnapshot exListOrder))) ''d4'' = None"
proof -
  have old: "Clean (Path exDocsDir) = ''/docs''"
    by (simp add: ex_defs decode_def IsAbs_def Clean_def)
  have q: "FindDocs (db exCtx) (StartWithPath (Clean (Path exDocsDir) @ ''/'')) None
      = Inr [snd (exDocs ! 1), snd (exDocs ! 3)] \<and> [snd (exDocs ! 1), snd (exDocs ! 3)] \<noteq> []"
    unfolding old by (simp add: ex_defs FindDocs_def HasPrefix_def)
  have dist: "distinct (map ObjID exSnapshot)" "distinct (map ObjID [exSnapshot ! 2])"
    by (simp_all add: ex_defs)
  have ok: "\<not> unitOK (db exCtx) ''/docs'' (exSnapshot ! 0)" "\<not> unitOK (db exCtx) ''/docs'' (exSnapshot ! 1)"
    "unitOK (db exCtx) ''/docs'' (exSnapshot ! 2)"
    by (simp_all add: ex_defs unitOK_def HasPrefix_def)
  have mem: "exSnapshot ! 0 \<in> set exSnapshot" "exSnapshot ! 1 \<in> set exSnapshot"
    "exSnapshot ! 2 \<in> set exSnapshot"
    by (simp_all add: ex_defs)
  have all: "\<forall>child\<in>set [exSnapshot ! 2]. unitOK (db exCtx) ''/docs'' child"
    using ok(3) by simp
  have res: "snd (fanout (db exCtx) ''/docs'' ''/archive'' exSnapshot exListOrder) = Some CouchNotFound"
    by (simp add: ex_defs run_defs)
  have sent: "snd (fixChild (db exCtx) ''/docs'' ''/archive'' (exSnapshot ! 0)) = Some CouchConflict"
    by (simp add: ex_defs run_defs)
  have r0: "bulkUpdateDocsPath exCtx exDocsDir ''/archive'' exLastFirst =
      (exCtx\<lparr>db := fst (fanout (db exCtx) (Clean (Path exDocsDir)) ''/archive''
                           [snd (exDocs ! 1), snd (exDocs ! 3)] exLastFirst)\<rparr>,
       snd (fanout (db exCtx) (Clean (Path exDocsDir)) ''/archive''
              [snd (exDocs ! 1), snd (exDocs ! 3)] exLastFirst))"
    using fanout_one_error [where c = exCtx and olddoc = exDocsDir and newpath = "''/archive''"
        and children = "[snd (exDocs ! 1), snd (exDocs ! 3)]" and sched = exLastFirst] q
    by blast
  have r1: "snd (fanout (db exCtx) ''/docs'' ''/archive'' exSnapshot exListOrder) \<noteq> None"
    using fanout_one_error [where d = "db exCtx" and oldpath = "''/docs''" and newpath = "''/archive''"
        and children = exSnapshot and sched = exListOrder] dist(1) ok(1) mem(1)
    by blast
  have r2: "snd (fanout (db exCtx) ''/docs'' ''/archive'' [exSnapshot ! 2] exListOrder) = None"
    using fanout_one_error [where d = "db exCtx" and oldpath = "''/docs''" and newpath = "''/archive''"
        and children = "[exSnapshot ! 2]" and sched = exListOrder] dist(2) all
    by blast
  have r3: "\<exists>child\<in>set exSnapshot.
      \<not> unitOK (db exCtx) ''/docs'' child \<and>
      snd (fixChild (db exCtx) ''/docs'' ''/archive'' child) = Some CouchNotFound"
    using fanout_one_error [where d = "db exCtx" and oldpath = "''/docs''" and newpath = "''/archive''"
        and children = exSnapshot and sched = exListOrder and e = CouchNotFound] dist(1) res
    by blast
  have r4: "map_of (docs (fst (fanout (db exCtx) ''/docs'' ''/archive'' exSnapshot exListOrder))) (ObjID (exSnapshot ! 2))
      = Some (relocated ''/docs'' ''/archive'' (exSnapshot ! 2))"
    using fanout_one_error [where d = "db exCtx" and oldpath = "''/docs''" and newpath = "''/archive''"
        and children = exSnapshot and sched = exListOrder and child = "exSnapshot ! 2"
        and c = exCtx and olddoc = exDocsDir and e = CouchNotFound and e' = CouchNotFound] dist(1) ok(3) mem(3)
    by simp
  have r5: "map_of (docs (fst (fanout (db exCtx) ''/docs'' ''/archive'' exSnapshot exListOrder))) (ObjID (exSnapshot ! 1))
      = map_of (docs (db exCtx)) (ObjID (exSnapshot ! 1))"
    using fanout_one_error [where d = "db exCtx" and oldpath = "''/docs''" and newpath = "''/archive''"
        and children = exSnapshot and sched = exListOrder and child = "exSnapshot ! 1"
        and c = exCtx and olddoc = exDocsDir and e = CouchNotFound and e' = CouchNotFound] dist(1) ok(2) mem(2)
    by simp
  have r6: "\<exists>s. snd (fanout (db exCtx) ''/docs'' ''/archive'' exSnapshot s) = Some CouchConflict"
    using fanout_one_error [where d = "db exCtx" and oldpath = "''/docs''" and newpath = "''/archive''"
        and children = exSnapshot and child = "exSnapshot ! 0" and e' = CouchConflict] dist(1) mem(1) sent
    by blast
  have v: "ObjID (exSnapshot ! 2) = ''d3''" "ObjID (exSnapshot ! 1) = ''d4''"
    "Path (relocated ''/docs'' ''/archive'' (exSnapshot ! 2)) = ''/archive/music''"
    "map_of (docs (db exCtx)) ''d4'' = None"
    by (simp_all add: ex_defs relocated_def Join_def Clean_def IsAbs_def)
  from r0 r1 r2 r3 r4 r5 r6 show ?thesis
    unfolding v old by (simp add: v)
qed

text \<open>
  C4 as stated fails: two units fail with different errors, a conflict and a missing
  document. When the values arrive in the order of the query result the result is the
  missing document alone, and when they arrive in the opposite order it is the conflict
  alone; in both the other error is dropped.
\<close>

theorem fanout_one_error_counterexample:
  "snd (fixChild (db exCtx) ''/docs'' ''/archive'' (exSnapshot ! 0)) = Some CouchConflict \<and>
   snd (fixChild (db exCtx) ''/docs'' ''/archive'' (exSnapshot ! 1)) = Some CouchNotFound \<and>
   snd (fanout (db exCtx) ''/docs'' ''/archive'' exSnapshot exListOrder) = Some CouchNotFound \<and>
   snd (fanout (db exCtx) ''/docs'' ''/archive'' exSnapshot exLastFirst) = Some CouchConflict"
  by (simp add: ex_defs run_defs)

subsection \<open>C5: a modification that leaves the path as it is\<close>

text \<open>
  C5, as the code has it. \<^verbatim>\<open>ModifyDirectoryMetadata\<close> calls \<^verbatim>\<open>bulkUpdateDocsPath\<close> whether
  or not the path changes. When a call succeeds with the path of the new document equal to
  the old clean path, in a store keyed by identifier whose documents below that path have
  clean paths: the physical store is unchanged, and every other document keeps all its
  fields except that each document below the path is written again and so has its next
  revision.
\<close>

theorem Modify_same_path:
  assumes "ModifyDirectoryMetadata c now olddoc data sched = (c', Inr newdoc)"
    and "Path newdoc = Path olddoc"
    and "Path olddoc \<noteq> []" and "Clean (Path olddoc) = Path olddoc"
    and "keyed (db c)"
    and "\<forall>(i, x)\<in>set (docs (db c)). HasPrefix (Path x) (Path olddoc @ ''/'') \<longrightarrow> Clean (Path x) = Path x"
  shows "fs c' = fs c \<and>
    (\<forall>i x. map_of (docs (db c)) i = Some x \<and> i \<noteq> ObjID olddoc \<longrightarrow>
       map_of (docs (db c')) i =
         Some (x\<lparr>ObjRev := (if HasPrefix (Path x) (Path olddoc @ ''/'') then nextRev (ObjRev x)
                             else ObjRev x)\<rparr>))"
  using assms(1)
proof (rule Modify_success)
  fix folderID pth0 par fresh fs1 c1 db2 name pth mdate tags
  assume ren: "(if pth \<noteq> Path olddoc then safeRenameDirectory (Path olddoc) pth (fs c) else Inr (fs c)) = Inr fs1"
    and bulk: "bulkUpdateDocsPath (c\<lparr>fs := fs1\<rparr>) olddoc pth sched = (c1, None)"
    and upd: "UpdateDoc (db c1) (fresh\<lparr>ObjID := ObjID olddoc, ObjRev := ObjRev olddoc,
        CreatedAt := CreatedAt olddoc, UpdatedAt := mdate, Path := pth,
        files := files olddoc, dirs := dirs olddoc\<rparr>) = Inr (db2, newdoc)"
    and c': "c' = c1\<lparr>db := db2\<rparr>"
  have pth: "pth = Path olddoc"
    using UpdateDoc_Inr(3) [OF upd] assms(2) by simp
  then have fs1: "fs1 = fs c" using ren by simp
  have k: "keyed (db (c\<lparr>fs := fs1\<rparr>))" using assms(5) by simp
  note b = bulkUpdateDocsPath_None [OF k bulk]
  have fs: "fs c' = fs c" using b(2) c' fs1 by simp
  have look: "map_of (docs (db c')) i =
         Some (x\<lparr>ObjRev := (if HasPrefix (Path x) (Path olddoc @ ''/'') then nextRev (ObjRev x)
                             else ObjRev x)\<rparr>)"
    if x: "map_of (docs (db c)) i = Some x" and i: "i \<noteq> ObjID olddoc" for i x
  proof -
    have l2: "map_of (docs (db c')) i = map_of (docs (db c1)) i"
      using UpdateDoc_lookup [OF upd, of i] i c' by simp
    have l1: "map_of (docs (db c1)) i =
        Some (if HasPrefix (Path x) (Path olddoc @ ''/'') then relocated (Path olddoc) (Path olddoc) x else x)"
      using b(5) [of i] x by (simp add: assms(4) pth)
    show ?thesis
    proof (cases "HasPrefix (Path x) (Path olddoc @ ''/'')")
      case False
      then show ?thesis using l1 l2 by simp
    next
      case True
      have "(i, x) \<in> set (docs (db c))" using x by (rule map_of_SomeD)
      then have cl: "Clean (Path x) = Path x" using assms(6) True by auto
      have px: "Path x = Path olddoc @ CHR ''/'' # drop (length (Path olddoc) + 1) (Path x)"
        using True by (auto simp: HasPrefix_def prefix_def)
      have "Join (Path olddoc) (drop (length (Path olddoc) + 1) (Path x)) = Clean (Path x)"
        using assms(3) px by (simp add: Join_def)
      then have "relocated (Path olddoc) (Path olddoc) x = x\<lparr>ObjRev := nextRev (ObjRev x)\<rparr>"
        by (simp add: relocated_def cl)
      then show ?thesis using l1 l2 True by simp
    qed
  qed
  show ?thesis using fs look by blast
qed

theorem Modify_same_path_witness:
  "fs (fst exTagged) = fs exCtx \<and>
   map_of (docs (db (fst exTagged))) ''d2'' = Some ((snd (exDocs ! 1))\<lparr>ObjRev := ''++''\<rparr>) \<and>
   map_of (docs (db (fst exTagged))) ''f1'' = Some (snd (exDocs ! 2))"
proof -
  obtain c' newdoc where
    e: "ModifyDirectoryMetadata exCtx 9 exDocsDir (noChange\<lparr>attrTags := Some [''work'']\<rparr>) exListOrder = (c', Inr newdoc)"
      "Path newdoc = Path exDocsDir"
    by (simp add: run_defs ex_defs)
  have p: "Path exDocsDir \<noteq> []" "Clean (Path exDocsDir) = Path exDocsDir" "keyed (db exCtx)"
    "\<forall>(i, x)\<in>set (docs (db exCtx)). HasPrefix (Path x) (Path exDocsDir @ ''/'') \<longrightarrow> Clean (Path x) = Path x"
    by (simp_all add: ex_defs decode_def Clean_def IsAbs_def keyed_def HasPrefix_def)
  have l: "map_of (docs (db exCtx)) ''d2'' = Some (snd (exDocs ! 1)) \<and> ''d2'' \<noteq> ObjID exDocsDir"
    "map_of (docs (db exCtx)) ''f1'' = Some (snd (exDocs ! 2)) \<and> ''f1'' \<noteq> ObjID exDocsDir"
    by (simp_all add: ex_defs decode_def)
  have c': "fst exTagged = c'" using e(1) by (simp add: exTagged_def)
  from Modify_same_path [OF e p] l show ?thesis
    unfolding c' by (auto simp: ex_defs decode_def HasPrefix_def nextRev_def)
qed

text \<open>
  C5 as stated fails: a call that only adds a tag to \<^verbatim>\<open>/docs\<close> succeeds with the path
  unchanged, and the document of \<^verbatim>\<open>/docs/photos\<close> has been written: its revision changed.
\<close>

theorem Modify_same_path_counterexample:
  "\<not> isl (snd exTagged) \<and> Path (projr (snd exTagged)) = Path exDocsDir \<and>
   map_option ObjRev (map_of (docs (db exCtx)) ''d2'') = Some ''+'' \<and>
   map_option ObjRev (map_of (docs (db (fst exTagged))) ''d2'') = Some ''++''"
  by (simp add: exTagged_def run_defs ex_defs)

subsection \<open>C1: the path invariant\<close>



end
